theory Spec2Isabelle
  imports Complex_Main
begin

section \<open>Python values and the JSON codec used for telemetry\<close>

text \<open>
  \<open>db.py\<close> hands \<open>telemetry_data\<close> to \<open>json.dumps\<close> and stores the resulting document in a
  TEXT column; every read path hands the column back to \<open>json.loads\<close>.

  A Python value is modelled by \<open>pyval\<close>. Dictionaries are association lists in insertion
  order with string keys (the annotation of \<open>telemetry_data\<close> is \<open>Dict[str, List]\<close>); a
  Python dict never holds a key twice.
  \<open>PObject\<close> stands for any value of a type the JSON encoder has no rule for (a set, bytes,
  a complex number, an instance of a user class). Floats are carried as reals: the store
  only copies them, so the IEEE special values (NaN, infinities) are not represented.

  The stored document is modelled by its syntax tree \<open>json\<close>: the conversion table of the
  \<open>json\<close> module (dict to object, list and tuple to array, str to string, int and float to
  number, True and False to true and false, None to null, anything else raises TypeError)
  is what \<open>dumps\<close> and \<open>loads\<close> embed; printing the tree as text and parsing it again is
  taken to be exact. A \<open>telemetry_data\<close> column holding text that is not a JSON document (a
  file written by another program) is therefore not represented.
\<close>

datatype pyval =
    PNone
  | PBool bool
  | PInt int
  | PFloat real
  | PStr string
  | PList "pyval list"
  | PTuple "pyval list"
  | PDict "(string \<times> pyval) list"
  | PObject

datatype json =
    JNull
  | JBool bool
  | JInt int
  | JReal real
  | JString string
  | JArray "json list"
  | JObject "(string \<times> json) list"

datatype py_error = TypeError | OverflowError

text \<open>The first exception raised while encoding the elements of a container wins.\<close>

fun collect :: "(py_error + 'a) list \<Rightarrow> py_error + 'a list" where
  "collect [] = Inr []"
| "collect (Inl e # rs) = Inl e"
| "collect (Inr x # rs) = (case collect rs of Inl e \<Rightarrow> Inl e | Inr xs \<Rightarrow> Inr (x # xs))"

fun dumps_member :: "string \<Rightarrow> py_error + json \<Rightarrow> py_error + string \<times> json" where
  "dumps_member k (Inl e) = Inl e"
| "dumps_member k (Inr j) = Inr (k, j)"

fun dumps :: "pyval \<Rightarrow> py_error + json" where
  "dumps PNone = Inr JNull"
| "dumps (PBool b) = Inr (JBool b)"
| "dumps (PInt i) = Inr (JInt i)"
| "dumps (PFloat x) = Inr (JReal x)"
| "dumps (PStr s) = Inr (JString s)"
| "dumps (PList xs) =
     (case collect (map dumps xs) of Inl e \<Rightarrow> Inl e | Inr js \<Rightarrow> Inr (JArray js))"
| "dumps (PTuple xs) =
     (case collect (map dumps xs) of Inl e \<Rightarrow> Inl e | Inr js \<Rightarrow> Inr (JArray js))"
| "dumps (PDict kvs) =
     (case collect (map (\<lambda>kv. dumps_member (fst kv) (dumps (snd kv))) kvs) of
        Inl e \<Rightarrow> Inl e
      | Inr ms \<Rightarrow> Inr (JObject ms))"
| "dumps PObject = Inl TypeError"

text \<open>
  \<open>d[k] = v\<close> on a Python dict: an existing key keeps its position and takes the new value,
  a new key goes to the end. The JSON decoder builds a dict from the members of an object
  in this way, so a repeated member name keeps only its last value.
\<close>

fun dict_set :: "(string \<times> 'v) list \<Rightarrow> string \<Rightarrow> 'v \<Rightarrow> (string \<times> 'v) list" where
  "dict_set [] k v = [(k, v)]"
| "dict_set ((k', v') # d) k v =
     (if k' = k then (k, v) # d else (k', v') # dict_set d k v)"

fun loads :: "json \<Rightarrow> pyval" where
  "loads JNull = PNone"
| "loads (JBool b) = PBool b"
| "loads (JInt i) = PInt i"
| "loads (JReal x) = PFloat x"
| "loads (JString s) = PStr s"
| "loads (JArray js) = PList (map loads js)"
| "loads (JObject ms) =
     PDict (foldl (\<lambda>d m. dict_set d (fst m) (loads (snd m))) [] ms)"

text \<open>
  The values the codec returns unchanged: built from None, booleans, numbers, strings,
  lists and dicts only, and no dict, at any depth, holds a key twice (no Python dict does).
  A tuple is written as an array and comes back as a list.
\<close>

fun json_exact :: "pyval \<Rightarrow> bool" where
  "json_exact (PList xs) = list_all json_exact xs"
| "json_exact (PTuple xs) = False"
| "json_exact (PDict kvs) =
     (distinct (map fst kvs) \<and> list_all (\<lambda>kv. json_exact (snd kv)) kvs)"
| "json_exact PObject = False"
| "json_exact v = True"

text \<open>
  The telemetry the collaborator contract promises: a dict from channel names to lists
  whose elements are numbers (int or float) or booleans.
\<close>

fun is_sample :: "pyval \<Rightarrow> bool" where
  "is_sample (PBool b) = True"
| "is_sample (PInt i) = True"
| "is_sample (PFloat x) = True"
| "is_sample v = False"

fun is_channel :: "pyval \<Rightarrow> bool" where
  "is_channel (PList xs) = list_all is_sample xs"
| "is_channel v = False"

fun valid_telemetry :: "pyval \<Rightarrow> bool" where
  "valid_telemetry (PDict kvs) =
     (distinct (map fst kvs) \<and> list_all (\<lambda>kv. is_channel (snd kv)) kvs)"
| "valid_telemetry v = False"

text \<open>Whether a value of an unsupported type occurs anywhere inside a value.\<close>

fun has_object :: "pyval \<Rightarrow> bool" where
  "has_object PObject = True"
| "has_object (PList xs) = list_ex has_object xs"
| "has_object (PTuple xs) = list_ex has_object xs"
| "has_object (PDict kvs) = list_ex (\<lambda>kv. has_object (snd kv)) kvs"
| "has_object v = False"

section \<open>The database file\<close>

text \<open>
  The two tables of \<open>_create_tables\<close>. A row is a record of its columns; a table is the list
  of its rows in rowid order, which is the order a \<open>SELECT\<close> without \<open>ORDER BY\<close> scans them.
  Both tables declare \<open>id INTEGER PRIMARY KEY AUTOINCREMENT\<close>: the engine keeps, per table,
  the largest rowid it has ever assigned (its \<open>sqlite_sequence\<close> entry) and gives a new
  row that number plus one. The three flags of a detection are INTEGER columns, and
  \<open>picture\<close> is the only column that may be NULL.

  An id the caller passes is bound to the \<open>?\<close> of the statement as an INTEGER, which is a
  signed 64-bit number: for a Python int outside that range the \<open>sqlite3\<close> module raises
  OverflowError from \<open>cursor.execute\<close>, before the statement runs.

  Failures of the engine itself (I/O errors, a corrupt file, a table whose sequence has
  reached the largest rowid) are not modelled.
\<close>

record flight_logs_row =
  fr_id :: int
  fr_timestamp :: string
  fr_telemetry_data :: json

record detections_row =
  dr_id :: int
  dr_timestamp :: string
  dr_category :: string
  dr_latitude :: real
  dr_longitude :: real
  dr_picture :: "string option"
  dr_bhp :: int
  dr_worker :: int
  dr_change :: int

record drone_db =
  flight_logs :: "flight_logs_row list"
  flight_logs_seq :: int
  detections :: "detections_row list"
  detections_seq :: int

text \<open>The dictionaries the read paths build.\<close>

record flight_log =
  fl_id :: int
  fl_timestamp :: string
  fl_telemetry_data :: pyval

record detection =
  det_id :: int
  det_timestamp :: string
  det_category :: string
  det_latitude :: real
  det_longitude :: real
  det_picture :: "string option"
  det_bhp :: bool
  det_worker :: bool
  det_change :: bool

text \<open>\<open>DroneDB(db_path)\<close> on a path where no file exists yet: both tables are created empty.\<close>

definition create_tables :: drone_db where
  "create_tables =
     \<lparr>flight_logs = [], flight_logs_seq = 0, detections = [], detections_seq = 0\<rparr>"

text \<open>
  What the schema guarantees of any database file: within a table the ids are strictly
  ascending in scan order (so no id occurs twice) and none exceeds the table's sequence.
\<close>

definition wf_table :: "int list \<Rightarrow> int \<Rightarrow> bool" where
  "wf_table ids seq = (sorted_wrt (<) ids \<and> list_all (\<lambda>i. i \<le> seq) ids)"

definition wf_db :: "drone_db \<Rightarrow> bool" where
  "wf_db db =
     (wf_table (map fr_id (flight_logs db)) (flight_logs_seq db) \<and>
      wf_table (map dr_id (detections db)) (detections_seq db))"

text \<open>The Python ints that can be bound to a statement parameter.\<close>

definition sqlite_int64 :: "int \<Rightarrow> bool" where
  "sqlite_int64 i = (- 9223372036854775808 \<le> i \<and> i \<le> 9223372036854775807)"

text \<open>Python's \<open>bool(n)\<close> on an int.\<close>

definition py_bool :: "int \<Rightarrow> bool" where
  "py_bool n = (n \<noteq> 0)"

subsection \<open>Flight logs\<close>

text \<open>
  \<open>DroneDB.add_flight_log\<close>: the telemetry is encoded first, so an exception of the encoder
  leaves the method before the \<open>INSERT\<close> is executed. The result is the exception or
  \<open>cursor.lastrowid\<close>, together with the database file after the call.
\<close>

definition add_flight_log :: "string \<Rightarrow> pyval \<Rightarrow> drone_db \<Rightarrow> (py_error + int) \<times> drone_db" where
  "add_flight_log timestamp telemetry_data db =
     (case dumps telemetry_data of
        Inl e \<Rightarrow> (Inl e, db)
      | Inr telemetry_json \<Rightarrow>
          (let lastrowid = flight_logs_seq db + 1;
               row = \<lparr>fr_id = lastrowid, fr_timestamp = timestamp,
                      fr_telemetry_data = telemetry_json\<rparr>
           in (Inr lastrowid,
               db\<lparr>flight_logs := flight_logs db @ [row], flight_logs_seq := lastrowid\<rparr>)))"

text \<open>
  \<open>DroneDB.get_flight_log\<close> and \<open>DroneDB.get_all_flight_logs\<close> build the same dictionary from a
  fetched row; \<open>fetchone\<close> gives the first row the \<open>WHERE\<close> clause selects, or None.
  \<open>get_flight_log\<close> binds \<open>log_id\<close>, so it raises OverflowError for an id that is no signed
  64-bit number.
\<close>

definition flight_log_of_row :: "flight_logs_row \<Rightarrow> flight_log" where
  "flight_log_of_row result =
     \<lparr>fl_id = fr_id result, fl_timestamp = fr_timestamp result,
      fl_telemetry_data = loads (fr_telemetry_data result)\<rparr>"

definition get_flight_log :: "int \<Rightarrow> drone_db \<Rightarrow> py_error + flight_log option" where
  "get_flight_log log_id db =
     (if sqlite_int64 log_id
      then Inr (case find (\<lambda>r. fr_id r = log_id) (flight_logs db) of
                  Some result \<Rightarrow> Some (flight_log_of_row result)
                | None \<Rightarrow> None)
      else Inl OverflowError)"

definition get_all_flight_logs :: "drone_db \<Rightarrow> flight_log list" where
  "get_all_flight_logs db = map flight_log_of_row (flight_logs db)"

text \<open>
  \<open>DroneDB.delete_flight_log\<close>: \<open>cursor.rowcount\<close> is the number of rows the \<open>DELETE\<close> removed.
  Deleting rows does not lower the table's sequence. Binding an id that is no signed 64-bit
  number raises OverflowError, and nothing is deleted.
\<close>

definition delete_flight_log :: "int \<Rightarrow> drone_db \<Rightarrow> (py_error + bool) \<times> drone_db" where
  "delete_flight_log log_id db =
     (if sqlite_int64 log_id
      then (let rowcount = length (filter (\<lambda>r. fr_id r = log_id) (flight_logs db))
            in (Inr (rowcount > 0),
                db\<lparr>flight_logs := filter (\<lambda>r. fr_id r \<noteq> log_id) (flight_logs db)\<rparr>))
      else (Inl OverflowError, db))"

subsection \<open>Detections\<close>

text \<open>\<open>DroneDB.add_detection\<close>; each flag is bound as \<open>1 if flag else 0\<close>.\<close>

definition add_detection ::
  "string \<Rightarrow> string \<Rightarrow> real \<Rightarrow> real \<Rightarrow> string option \<Rightarrow> bool \<Rightarrow> bool \<Rightarrow> bool \<Rightarrow> drone_db
     \<Rightarrow> int \<times> drone_db" where
  "add_detection timestamp category latitude longitude picture bhp worker change db =
     (let lastrowid = detections_seq db + 1;
          row = \<lparr>dr_id = lastrowid, dr_timestamp = timestamp, dr_category = category,
                 dr_latitude = latitude, dr_longitude = longitude, dr_picture = picture,
                 dr_bhp = (if bhp then 1 else 0), dr_worker = (if worker then 1 else 0),
                 dr_change = (if change then 1 else 0)\<rparr>
      in (lastrowid, db\<lparr>detections := detections db @ [row], detections_seq := lastrowid\<rparr>))"

text \<open>
  \<open>DroneDB.get_detection\<close> and \<open>DroneDB.get_all_detections\<close> build the same dictionary from a
  fetched row, with \<open>bool\<close> applied to the three flag columns. \<open>get_detection\<close> binds
  \<open>detection_id\<close> and raises OverflowError for an id that is no signed 64-bit number.
\<close>

definition detection_of_row :: "detections_row \<Rightarrow> detection" where
  "detection_of_row result =
     \<lparr>det_id = dr_id result, det_timestamp = dr_timestamp result,
      det_category = dr_category result, det_latitude = dr_latitude result,
      det_longitude = dr_longitude result, det_picture = dr_picture result,
      det_bhp = py_bool (dr_bhp result), det_worker = py_bool (dr_worker result),
      det_change = py_bool (dr_change result)\<rparr>"

definition get_detection :: "int \<Rightarrow> drone_db \<Rightarrow> py_error + detection option" where
  "get_detection detection_id db =
     (if sqlite_int64 detection_id
      then Inr (case find (\<lambda>r. dr_id r = detection_id) (detections db) of
                  Some result \<Rightarrow> Some (detection_of_row result)
                | None \<Rightarrow> None)
      else Inl OverflowError)"

definition get_all_detections :: "drone_db \<Rightarrow> detection list" where
  "get_all_detections db = map detection_of_row (detections db)"

text \<open>\<open>x if x is not None else y\<close>.\<close>

definition if_not_None :: "'a option \<Rightarrow> 'a \<Rightarrow> 'a" where
  "if_not_None x y = (case x of Some v \<Rightarrow> v | None \<Rightarrow> y)"

text \<open>
  \<open>DroneDB.update_detection\<close>: every parameter but the id defaults to None. The method reads
  the current record through \<open>get_detection\<close> (whose exception, if it raises, leaves the
  method with nothing written), returns False when there is none, and otherwise
  sets all eight columns of the rows with that id; \<open>cursor.rowcount\<close> is the number of rows
  the \<open>UPDATE\<close> matched. For \<open>picture\<close> both the argument and the current value are optional
  strings.
\<close>

definition update_detection ::
  "int \<Rightarrow> string option \<Rightarrow> string option \<Rightarrow> real option \<Rightarrow> real option \<Rightarrow> string option
     \<Rightarrow> bool option \<Rightarrow> bool option \<Rightarrow> bool option \<Rightarrow> drone_db
     \<Rightarrow> (py_error + bool) \<times> drone_db" where
  "update_detection detection_id timestamp category latitude longitude picture bhp worker
     change db =
     (case get_detection detection_id db of
        Inl e \<Rightarrow> (Inl e, db)
      | Inr None \<Rightarrow> (Inr False, db)
      | Inr (Some current) \<Rightarrow>
          (let new_timestamp = if_not_None timestamp (det_timestamp current);
               new_category = if_not_None category (det_category current);
               new_latitude = if_not_None latitude (det_latitude current);
               new_longitude = if_not_None longitude (det_longitude current);
               new_picture =
                 (case picture of Some p \<Rightarrow> Some p | None \<Rightarrow> det_picture current);
               new_bhp = (if if_not_None bhp (det_bhp current) then 1 else 0);
               new_worker = (if if_not_None worker (det_worker current) then 1 else 0);
               new_change = (if if_not_None change (det_change current) then 1 else 0);
               rowcount = length (filter (\<lambda>r. dr_id r = detection_id) (detections db))
           in (Inr (rowcount > 0),
               db\<lparr>detections :=
                    map (\<lambda>r. if dr_id r = detection_id
                              then r\<lparr>dr_timestamp := new_timestamp,
                                     dr_category := new_category,
                                     dr_latitude := new_latitude,
                                     dr_longitude := new_longitude,
                                     dr_picture := new_picture,
                                     dr_bhp := new_bhp, dr_worker := new_worker,
                                     dr_change := new_change\<rparr>
                              else r)
                      (detections db)\<rparr>)))"

text \<open>\<open>DroneDB.delete_detection\<close>, as \<open>delete_flight_log\<close> on the other table.\<close>

definition delete_detection :: "int \<Rightarrow> drone_db \<Rightarrow> (py_error + bool) \<times> drone_db" where
  "delete_detection detection_id db =
     (if sqlite_int64 detection_id
      then (let rowcount = length (filter (\<lambda>r. dr_id r = detection_id) (detections db))
            in (Inr (rowcount > 0),
                db\<lparr>detections := filter (\<lambda>r. dr_id r \<noteq> detection_id) (detections db)\<rparr>))
      else (Inl OverflowError, db))"

subsection \<open>Sequences of calls\<close>

text \<open>
  A caller is a sequence of calls on one \<open>DroneDB\<close> object; each call sees the file as the
  previous one left it. A call that raises leaves its exception as its outcome, and the
  caller goes on with the next call.
\<close>

datatype call =
    AddFlightLog string pyval
  | GetFlightLog int
  | GetAllFlightLogs
  | DeleteFlightLog int
  | AddDetection string string real real "string option" bool bool bool
  | GetDetection int
  | GetAllDetections
  | UpdateDetection int "string option" "string option" "real option" "real option"
      "string option" "bool option" "bool option" "bool option"
  | DeleteDetection int

datatype outcome =
    Raised py_error
  | NewId int
  | Done bool
  | Log "flight_log option"
  | Logs "flight_log list"
  | Det "detection option"
  | Dets "detection list"

fun perform :: "call \<Rightarrow> drone_db \<Rightarrow> outcome \<times> drone_db" where
  "perform (AddFlightLog timestamp telemetry_data) db =
     (case add_flight_log timestamp telemetry_data db of
        (Inl e, db') \<Rightarrow> (Raised e, db')
      | (Inr i, db') \<Rightarrow> (NewId i, db'))"
| "perform (GetFlightLog i) db =
     (case get_flight_log i db of Inl e \<Rightarrow> (Raised e, db) | Inr l \<Rightarrow> (Log l, db))"
| "perform GetAllFlightLogs db = (Logs (get_all_flight_logs db), db)"
| "perform (DeleteFlightLog i) db =
     (case delete_flight_log i db of
        (Inl e, db') \<Rightarrow> (Raised e, db')
      | (Inr deleted, db') \<Rightarrow> (Done deleted, db'))"
| "perform (AddDetection timestamp category latitude longitude picture bhp worker change) db =
     (case add_detection timestamp category latitude longitude picture bhp worker change db of
        (i, db') \<Rightarrow> (NewId i, db'))"
| "perform (GetDetection i) db =
     (case get_detection i db of Inl e \<Rightarrow> (Raised e, db) | Inr d \<Rightarrow> (Det d, db))"
| "perform GetAllDetections db = (Dets (get_all_detections db), db)"
| "perform (UpdateDetection i timestamp category latitude longitude picture bhp worker change)
     db =
     (case update_detection i timestamp category latitude longitude picture bhp worker change
             db of
        (Inl e, db') \<Rightarrow> (Raised e, db')
      | (Inr updated, db') \<Rightarrow> (Done updated, db'))"
| "perform (DeleteDetection i) db =
     (case delete_detection i db of
        (Inl e, db') \<Rightarrow> (Raised e, db')
      | (Inr deleted, db') \<Rightarrow> (Done deleted, db'))"

fun run :: "call list \<Rightarrow> drone_db \<Rightarrow> outcome list \<times> drone_db" where
  "run [] db = ([], db)"
| "run (c # cs) db =
     (case perform c db of
        (r, db') \<Rightarrow> (case run cs db' of (rs, db'') \<Rightarrow> (r # rs, db'')))"

text \<open>
  Counting over a sequence of calls and their outcomes: the \<open>add_flight_log\<close> calls that
  returned an id, and the \<open>delete_flight_log\<close> calls that returned True.
\<close>

fun log_added :: "call \<times> outcome \<Rightarrow> bool" where
  "log_added (AddFlightLog timestamp telemetry_data, NewId i) = True"
| "log_added cr = False"

fun log_deleted :: "call \<times> outcome \<Rightarrow> bool" where
  "log_deleted (DeleteFlightLog i, Done deleted) = deleted"
| "log_deleted cr = False"

text \<open>The ids handed out by the adds of a sequence of calls, in call order, per table.\<close>

fun flight_log_ids :: "(call \<times> outcome) list \<Rightarrow> int list" where
  "flight_log_ids [] = []"
| "flight_log_ids ((AddFlightLog timestamp telemetry_data, NewId i) # crs) =
     i # flight_log_ids crs"
| "flight_log_ids (cr # crs) = flight_log_ids crs"

fun detection_ids :: "(call \<times> outcome) list \<Rightarrow> int list" where
  "detection_ids [] = []"
| "detection_ids
     ((AddDetection timestamp category latitude longitude picture bhp worker change, NewId i)
        # crs) =
     i # detection_ids crs"
| "detection_ids (cr # crs) = detection_ids crs"

subsection \<open>What an update is expected to leave\<close>

text \<open>
  The record a caller expects to read after \<open>update_detection\<close>: each provided field takes
  the provided value, each field passed as None keeps the value of the record read before.
\<close>

definition merged :: "detection \<Rightarrow> string option \<Rightarrow> string option \<Rightarrow> real option \<Rightarrow> real option \<Rightarrow> string option
     \<Rightarrow> bool option \<Rightarrow> bool option \<Rightarrow> bool option \<Rightarrow> detection" where
  "merged current timestamp category latitude longitude picture bhp worker change =
     \<lparr>det_id = det_id current,
      det_timestamp = (case timestamp of Some v \<Rightarrow> v | None \<Rightarrow> det_timestamp current),
      det_category = (case category of Some v \<Rightarrow> v | None \<Rightarrow> det_category current),
      det_latitude = (case latitude of Some v \<Rightarrow> v | None \<Rightarrow> det_latitude current),
      det_longitude = (case longitude of Some v \<Rightarrow> v | None \<Rightarrow> det_longitude current),
      det_picture = (case picture of Some v \<Rightarrow> Some v | None \<Rightarrow> det_picture current),
      det_bhp = (case bhp of Some v \<Rightarrow> v | None \<Rightarrow> det_bhp current),
      det_worker = (case worker of Some v \<Rightarrow> v | None \<Rightarrow> det_worker current),
      det_change = (case change of Some v \<Rightarrow> v | None \<Rightarrow> det_change current)\<rparr>"

text \<open>The columns an \<open>UPDATE\<close> statement sets from such a record; the id is not among them.\<close>

definition written :: "detection \<Rightarrow> detections_row \<Rightarrow> detections_row" where
  "written d r =
     r\<lparr>dr_timestamp := det_timestamp d, dr_category := det_category d,
       dr_latitude := det_latitude d, dr_longitude := det_longitude d,
       dr_picture := det_picture d, dr_bhp := (if det_bhp d then 1 else 0),
       dr_worker := (if det_worker d then 1 else 0),
       dr_change := (if det_change d then 1 else 0)\<rparr>"

subsection \<open>The flag columns\<close>

text \<open>
  The three flag columns of the row with a given id, as the file holds them; the three flags
  of a dictionary a read path returned; and the integers \<open>1 if flag else 0\<close> of three flags.
\<close>

definition stored_flags :: "int \<Rightarrow> drone_db \<Rightarrow> (int \<times> int \<times> int) option" where
  "stored_flags i db =
     map_option (\<lambda>r. (dr_bhp r, dr_worker r, dr_change r))
       (find (\<lambda>r. dr_id r = i) (detections db))"

definition read_flags :: "detection \<Rightarrow> bool \<times> bool \<times> bool" where
  "read_flags d = (det_bhp d, det_worker d, det_change d)"

definition flag_ints :: "bool \<times> bool \<times> bool \<Rightarrow> int \<times> int \<times> int" where
  "flag_ints f =
     (case f of (bhp, worker, change) \<Rightarrow>
        (if bhp then 1 else 0, if worker then 1 else 0, if change then 1 else 0))"

subsection \<open>Sample data\<close>

text \<open>
  The telemetry of the flight-log scenario, and a database file as a session could have left
  it: flight log 1 was added and deleted, flight log 2 and two detections are stored.
\<close>

definition sample_telemetry :: pyval where
  "sample_telemetry =
     PDict [(''Roll'', PList [PFloat 1.0, PFloat 1.5]),
            (''Armed'', PList [PBool True, PBool True])]"

definition sample_db :: drone_db where
  "sample_db =
     \<lparr>flight_logs =
        [\<lparr>fr_id = 2, fr_timestamp = ''2024-01-01T00:00:00'',
          fr_telemetry_data =
            JObject [(''Roll'', JArray [JReal 1.0, JReal 1.5]),
                     (''Armed'', JArray [JBool True, JBool True])]\<rparr>],
      flight_logs_seq = 2,
      detections =
        [\<lparr>dr_id = 1, dr_timestamp = ''2024-01-01T00:00:00'', dr_category = ''Worker'',
          dr_latitude = 52.2297, dr_longitude = 21.0122,
          dr_picture = Some ''/path/to/worker.jpg'', dr_bhp = 1, dr_worker = 1, dr_change = 0\<rparr>,
         \<lparr>dr_id = 2, dr_timestamp = ''2024-01-01T00:00:00'', dr_category = ''Hazard'',
          dr_latitude = 52.2298, dr_longitude = 21.0123,
          dr_picture = None, dr_bhp = 0, dr_worker = 0, dr_change = 1\<rparr>],
      detections_seq = 2\<rparr>"

text \<open>Whether a call is a call of \<open>add_flight_log\<close>, whatever its outcome.\<close>

fun is_add_flight_log :: "call \<Rightarrow> bool" where
  "is_add_flight_log (AddFlightLog timestamp telemetry_data) = True"
| "is_add_flight_log c = False"

text \<open>
  Whether a call carries only arguments its operation can store: the telemetry of an
  \<open>add_flight_log\<close> call holds no value the JSON encoder rejects.
\<close>

fun serializable :: "call \<Rightarrow> bool" where
  "serializable (AddFlightLog timestamp telemetry_data) = (\<not> has_object telemetry_data)"
| "serializable c = True"

section \<open>The JSON codec\<close>

lemma collect_map_Inr:
  "(\<And>x. x \<in> set xs \<Longrightarrow> f x = Inr (g x)) \<Longrightarrow> collect (map f xs) = Inr (map g xs)"
  by (induction xs) auto

lemma collect_Inl_iff:
  "(\<exists>e. collect rs = Inl e) \<longleftrightarrow> (\<exists>e. Inl e \<in> set rs)"
proof (induction rs)
  case Nil
  then show ?case by simp
next
  case (Cons r rs)
  then show ?case by (cases r) (auto split: sum.splits)
qed

lemma dict_set_fresh: "k \<notin> fst ` set d \<Longrightarrow> dict_set d k v = d @ [(k, v)]"
  by (induction d) auto

lemma foldl_dict_set_distinct:
  "distinct (map fst d @ map fst ms) \<Longrightarrow>
   foldl (\<lambda>d m. dict_set d (fst m) (g (snd m))) d ms = d @ map (\<lambda>m. (fst m, g (snd m))) ms"
proof (induction ms arbitrary: d)
  case Nil
  then show ?case by simp
next
  case (Cons m ms)
  have fresh: "fst m \<notin> fst ` set d" using Cons.prems by auto
  have "distinct (map fst (d @ [(fst m, g (snd m))]) @ map fst ms)" using Cons.prems by auto
  from Cons.IH[OF this] show ?case by (simp add: dict_set_fresh[OF fresh])
qed

lemma dumps_exact:
  "json_exact v \<Longrightarrow> \<exists>j. dumps v = Inr j \<and> loads j = v"
proof (induction v rule: dumps.induct)
  case (6 xs)
  have "\<forall>x\<in>set xs. \<exists>j. dumps x = Inr j \<and> loads j = x"
    using 6 by (auto simp: list_all_iff)
  then obtain g where g: "\<And>x. x \<in> set xs \<Longrightarrow> dumps x = Inr (g x) \<and> loads (g x) = x"
    by metis
  have "collect (map dumps xs) = Inr (map g xs)"
    using g by (intro collect_map_Inr) simp
  moreover have "map loads (map g xs) = xs"
    using g by (simp add: map_idI)
  ultimately show ?case by simp
next
  case (8 kvs)
  have "\<forall>kv\<in>set kvs. \<exists>j. dumps (snd kv) = Inr j \<and> loads j = snd kv"
    using 8 by (auto simp: list_all_iff)
  then obtain g where g: "\<And>kv. kv \<in> set kvs \<Longrightarrow> dumps (snd kv) = Inr (g kv) \<and> loads (g kv) = snd kv"
    by metis
  let ?ms = "map (\<lambda>kv. (fst kv, g kv)) kvs"
  have c: "collect (map (\<lambda>kv. dumps_member (fst kv) (dumps (snd kv))) kvs) = Inr ?ms"
    using g by (intro collect_map_Inr) simp
  have "distinct (map fst [] @ map fst ?ms)" using 8(2) by (simp add: comp_def)
  from foldl_dict_set_distinct[OF this, of loads]
  have "foldl (\<lambda>d m. dict_set d (fst m) (loads (snd m))) [] ?ms = map (\<lambda>m. (fst m, loads (snd m))) ?ms"
    by simp
  also have "\<dots> = kvs" using g by (simp add: comp_def map_idI)
  finally show ?case using c by simp
qed simp_all

lemma valid_telemetry_exact: "valid_telemetry v \<Longrightarrow> json_exact v"
proof (cases v)
  case (PDict kvs)
  assume v: "valid_telemetry v"
  have "json_exact (snd kv)" if "kv \<in> set kvs" for kv
  proof -
    from that v PDict have "is_channel (snd kv)" by (simp add: list_all_iff)
    then obtain xs where xs: "snd kv = PList xs" "list_all is_sample xs"
      by (cases "snd kv") auto
    have "json_exact x" if "x \<in> set xs" for x
      by (cases x) (use that xs(2) in \<open>auto simp: list_all_iff\<close>)
    then show ?thesis using xs(1) by (simp add: list_all_iff)
  qed
  then show ?thesis using v PDict by (simp add: list_all_iff)
qed auto

lemma collect_Inl_mem: "collect rs = Inl e \<Longrightarrow> Inl e \<in> set rs"
proof (induction rs)
  case Nil
  then show ?case by simp
next
  case (Cons r rs)
  then show ?case by (cases r) (auto split: sum.splits)
qed

text \<open>The encoder raises nothing but TypeError.\<close>

lemma dumps_raises_TypeError: "dumps v = Inl e \<Longrightarrow> e = TypeError"
proof (induction v rule: dumps.induct)
  case (6 xs)
  then have "collect (map dumps xs) = Inl e" by (auto split: sum.splits)
  from collect_Inl_mem[OF this] obtain x where "x \<in> set xs" "dumps x = Inl e" by auto
  then show ?case using 6(1) by blast
next
  case (7 xs)
  then have "collect (map dumps xs) = Inl e" by (auto split: sum.splits)
  from collect_Inl_mem[OF this] obtain x where "x \<in> set xs" "dumps x = Inl e" by auto
  then show ?case using 7(1) by blast
next
  case (8 kvs)
  let ?f = "\<lambda>kv. dumps_member (fst kv) (dumps (snd kv))"
  from 8 have "collect (map ?f kvs) = Inl e" by (auto split: sum.splits)
  from collect_Inl_mem[OF this] obtain kv where kv: "kv \<in> set kvs" "?f kv = Inl e" by auto
  then have "dumps (snd kv) = Inl e" by (cases "dumps (snd kv)") auto
  then show ?case using 8(1)[of kv] kv(1) by simp
qed simp_all

lemma dumps_has_object: "has_object v \<Longrightarrow> dumps v = Inl TypeError"
proof (induction v rule: dumps.induct)
  case (6 xs)
  then obtain x where "x \<in> set xs" "dumps x = Inl TypeError" by (auto simp: list_ex_iff)
  then have "\<exists>e. Inl e \<in> set (map dumps xs)" by force
  then obtain e where e: "collect (map dumps xs) = Inl e" using collect_Inl_iff by blast
  then have "dumps (PList xs) = Inl e" by simp
  from dumps_raises_TypeError[OF this] e show ?case by simp
next
  case (7 xs)
  then obtain x where "x \<in> set xs" "dumps x = Inl TypeError" by (auto simp: list_ex_iff)
  then have "\<exists>e. Inl e \<in> set (map dumps xs)" by force
  then obtain e where e: "collect (map dumps xs) = Inl e" using collect_Inl_iff by blast
  then have "dumps (PTuple xs) = Inl e" by simp
  from dumps_raises_TypeError[OF this] e show ?case by simp
next
  case (8 kvs)
  then obtain kv where "kv \<in> set kvs" "dumps (snd kv) = Inl TypeError" by (auto simp: list_ex_iff)
  then have "\<exists>e. Inl e \<in> set (map (\<lambda>kv. dumps_member (fst kv) (dumps (snd kv))) kvs)" by force
  then obtain e where
    e: "collect (map (\<lambda>kv. dumps_member (fst kv) (dumps (snd kv))) kvs) = Inl e"
    using collect_Inl_iff by blast
  then have "dumps (PDict kvs) = Inl e" by simp
  from dumps_raises_TypeError[OF this] e show ?case by simp
qed simp_all

lemma dumps_Inl_has_object: "dumps v = Inl e \<Longrightarrow> has_object v"
proof (induction v arbitrary: e rule: dumps.induct)
  case (6 xs)
  then have "\<exists>e. collect (map dumps xs) = Inl e" by (auto split: sum.splits)
  then obtain e' where "Inl e' \<in> set (map dumps xs)" using collect_Inl_iff by blast
  then obtain x where "x \<in> set xs" "dumps x = Inl e'" by auto
  then show ?case using 6(1) by (auto simp: list_ex_iff)
next
  case (7 xs)
  then have "\<exists>e. collect (map dumps xs) = Inl e" by (auto split: sum.splits)
  then obtain e' where "Inl e' \<in> set (map dumps xs)" using collect_Inl_iff by blast
  then obtain x where "x \<in> set xs" "dumps x = Inl e'" by auto
  then show ?case using 7(1) by (auto simp: list_ex_iff)
next
  case (8 kvs)
  let ?f = "\<lambda>kv. dumps_member (fst kv) (dumps (snd kv))"
  from 8 have "\<exists>e. collect (map ?f kvs) = Inl e" by (auto split: sum.splits)
  then obtain e' where "Inl e' \<in> set (map ?f kvs)" using collect_Inl_iff by blast
  then obtain kv where kv: "kv \<in> set kvs" "?f kv = Inl e'" by auto
  then have "dumps (snd kv) = Inl e'" by (cases "dumps (snd kv)") auto
  then have "has_object (snd kv)" using 8(1)[of kv] kv(1) by simp
  then show ?case using kv(1) by (auto simp: list_ex_iff)
qed simp_all

section \<open>Tables\<close>

lemma find_None_notin: "i \<notin> f ` set rows \<Longrightarrow> find (\<lambda>r. f r = i) rows = None"
  by (auto simp: find_None_iff)

lemma filter_notin: "i \<notin> f ` set rows \<Longrightarrow> filter (\<lambda>r. f r \<noteq> i) rows = rows"
  by (induction rows) auto

lemma filter_eq_notin: "i \<notin> f ` set rows \<Longrightarrow> filter (\<lambda>r. f r = i) rows = []"
  by (induction rows) auto

lemma filter_eq_in: "i \<in> f ` set rows \<Longrightarrow> filter (\<lambda>r. f r = i) rows \<noteq> []"
  by (induction rows) auto

lemma find_append_last:
  "i \<notin> f ` set rows \<Longrightarrow> f row = i \<Longrightarrow> find (\<lambda>r. f r = i) (rows @ [row]) = Some row"
  by (induction rows) auto

lemma wf_table_distinct: "wf_table ids seq \<Longrightarrow> distinct ids"
  unfolding wf_table_def using strict_sorted_iff by auto

lemma wf_table_fresh: "wf_table ids seq \<Longrightarrow> seq + 1 \<notin> set ids"
  by (auto simp: wf_table_def list_all_iff)

lemma wf_table_append: "wf_table ids seq \<Longrightarrow> wf_table (ids @ [seq + 1]) (seq + 1)"
  by (fastforce simp: wf_table_def list_all_iff sorted_wrt_append)

lemma wf_table_filter:
  "wf_table (map f rows) seq \<Longrightarrow> wf_table (map f (filter P rows)) seq"
  unfolding wf_table_def
proof (induction rows)
  case Nil
  then show ?case by simp
next
  case (Cons r rows)
  then show ?case by (auto simp: list_all_iff)
qed

lemma filter_remove1:
  "distinct (map f rows) \<Longrightarrow> find (\<lambda>r. f r = i) rows = Some row \<Longrightarrow>
   filter (\<lambda>r. f r \<noteq> i) rows = remove1 row rows"
proof (induction rows)
  case Nil
  then show ?case by simp
next
  case (Cons r rows)
  show ?case
  proof (cases "f r = i")
    case True
    then have "row = r" using Cons.prems(2) by simp
    moreover have "i \<notin> f ` set rows" using Cons.prems(1) True by auto
    ultimately show ?thesis using True by (simp add: filter_notin)
  next
    case False
    then have "row \<noteq> r" using Cons.prems(2) by (auto dest: find_Some_iff[THEN iffD1])
    then show ?thesis using Cons False by simp
  qed
qed

lemma length_filter_distinct:
  "distinct (map f rows) \<Longrightarrow> i \<in> f ` set rows \<Longrightarrow>
   length (filter (\<lambda>r. f r \<noteq> i) rows) + 1 = length rows"
proof (induction rows)
  case Nil
  then show ?case by simp
next
  case (Cons r rows)
  show ?case
  proof (cases "f r = i")
    case True
    then have "i \<notin> f ` set rows" using Cons.prems(1) by auto
    then show ?thesis using True by (simp add: filter_notin)
  next
    case False
    then show ?thesis using Cons by auto
  qed
qed

section \<open>Updating a detection\<close>

lemma find_map_same:
  "(\<And>r. f (g r) = f r) \<Longrightarrow>
   find (\<lambda>r. f r = i) (map (\<lambda>r. if f r = i then g r else r) rows) =
   map_option g (find (\<lambda>r. f r = i) rows)"
  by (induction rows) auto

lemma find_map_other:
  "(\<And>r. f (g r) = f r) \<Longrightarrow> j \<noteq> i \<Longrightarrow>
   find (\<lambda>r. f r = j) (map (\<lambda>r. if f r = i then g r else r) rows) =
   find (\<lambda>r. f r = j) rows"
  by (induction rows) auto

lemma map_id_map:
  "(\<And>r. f (g r) = f r) \<Longrightarrow> map f (map (\<lambda>r. if f r = i then g r else r) rows) = map f rows"
  by (induction rows) auto

lemma find_Some_filter: "find (\<lambda>r. f r = i) rows = Some row \<Longrightarrow> filter (\<lambda>r. f r = i) rows \<noteq> []"
  by (induction rows) (auto split: if_splits)

lemma find_Some_in: "find (\<lambda>r. f r = i) rows = Some row \<Longrightarrow> i \<in> f ` set rows \<and> f row = i \<and> row \<in> set rows"
  by (induction rows) (auto split: if_splits)

lemma get_flight_log_overflow:
  "\<not> sqlite_int64 i \<Longrightarrow> get_flight_log i db = Inl OverflowError"
  by (simp add: get_flight_log_def)

lemma get_flight_log_in_range:
  "sqlite_int64 i \<Longrightarrow>
   get_flight_log i db =
     Inr (map_option flight_log_of_row (find (\<lambda>r. fr_id r = i) (flight_logs db)))"
  by (simp add: get_flight_log_def split: option.splits)

lemma get_detection_overflow:
  "\<not> sqlite_int64 i \<Longrightarrow> get_detection i db = Inl OverflowError"
  by (simp add: get_detection_def)

lemma get_detection_in_range:
  "sqlite_int64 i \<Longrightarrow>
   get_detection i db =
     Inr (map_option detection_of_row (find (\<lambda>r. dr_id r = i) (detections db)))"
  by (simp add: get_detection_def split: option.splits)

lemma get_detection_Inr: "get_detection i db = Inr d \<Longrightarrow> sqlite_int64 i"
  by (simp add: get_detection_def split: if_splits)

lemma get_detection_Inl: "get_detection i db = Inl e \<Longrightarrow> \<not> sqlite_int64 i \<and> e = OverflowError"
  by (simp add: get_detection_def split: if_splits)

lemma get_detection_Some:
  "get_detection i db = Inr (Some current) \<Longrightarrow>
   \<exists>row. find (\<lambda>r. dr_id r = i) (detections db) = Some row \<and> current = detection_of_row row"
  by (auto simp: get_detection_def split: option.splits if_splits)

lemma update_detection_overflow:
  "\<not> sqlite_int64 i \<Longrightarrow>
   update_detection i timestamp category latitude longitude picture bhp worker change db =
     (Inl OverflowError, db)"
  by (simp add: update_detection_def get_detection_overflow)

lemma update_detection_absent:
  "get_detection i db = Inr None \<Longrightarrow>
   update_detection i timestamp category latitude longitude picture bhp worker change db =
     (Inr False, db)"
  by (simp add: update_detection_def)

lemma dr_id_written: "dr_id (written d r) = dr_id r"
  by (simp add: written_def)

lemma detection_of_row_written:
  "detection_of_row (written d r) = d\<lparr>det_id := dr_id r\<rparr>"
  by (simp add: written_def detection_of_row_def py_bool_def)

lemma update_detection_found:
  assumes "get_detection i db = Inr (Some current)"
  shows "update_detection i timestamp category latitude longitude picture bhp worker change db =
         (Inr True, db\<lparr>detections :=
             map (\<lambda>r. if dr_id r = i
                       then written (merged current timestamp category latitude longitude picture bhp worker change) r
                       else r) (detections db)\<rparr>)"
proof -
  from get_detection_Some[OF assms] obtain row where
    row: "find (\<lambda>r. dr_id r = i) (detections db) = Some row" by blast
  have "filter (\<lambda>r. dr_id r = i) (detections db) \<noteq> []"
    using find_Some_filter[OF row] .
  then show ?thesis
    using assms by (simp add: update_detection_def Let_def written_def merged_def if_not_None_def)
qed

lemma get_detection_updated:
  assumes "get_detection i db = Inr (Some current)"
  shows "get_detection i (snd (update_detection i timestamp category latitude longitude picture bhp worker change db)) =
         Inr (Some (merged current timestamp category latitude longitude picture bhp worker change))"
proof -
  from get_detection_Some[OF assms] obtain row where
    row: "find (\<lambda>r. dr_id r = i) (detections db) = Some row" and cur: "current = detection_of_row row" by blast
  have id: "dr_id row = i" using find_Some_in[OF row] by simp
  have "det_id current = i" using cur id by (simp add: detection_of_row_def)
  then have "(merged current timestamp category latitude longitude picture bhp worker change)\<lparr>det_id := i\<rparr>
     = merged current timestamp category latitude longitude picture bhp worker change"
    by (simp add: merged_def)
  then show ?thesis
    unfolding update_detection_found[OF assms]
    by (simp add: get_detection_in_range[OF get_detection_Inr[OF assms]]
        find_map_same[where f = dr_id, OF dr_id_written] row detection_of_row_written id)
qed

lemma get_detection_update_other:
  assumes "j \<noteq> i"
  shows "get_detection j (snd (update_detection i timestamp category latitude longitude picture bhp worker change db)) =
         get_detection j db"
proof (cases "get_detection i db")
  case (Inl e)
  then show ?thesis by (simp add: update_detection_def)
next
  case (Inr d)
  show ?thesis
  proof (cases d)
    case None
    then show ?thesis using Inr by (simp add: update_detection_absent)
  next
    case (Some current)
    then have g: "get_detection i db = Inr (Some current)" using Inr by simp
    show ?thesis
      unfolding update_detection_found[OF g]
      by (simp add: get_detection_def find_map_other[where f = dr_id, OF dr_id_written assms])
  qed
qed

section \<open>The schema invariant is kept by every call\<close>

lemma wf_db_create_tables: "wf_db create_tables"
  by (simp add: wf_db_def wf_table_def create_tables_def)

lemma add_flight_log_Inr:
  "dumps telemetry_data = Inr j \<Longrightarrow>
   add_flight_log timestamp telemetry_data db =
     (Inr (flight_logs_seq db + 1),
      db\<lparr>flight_logs := flight_logs db @
             [\<lparr>fr_id = flight_logs_seq db + 1, fr_timestamp = timestamp, fr_telemetry_data = j\<rparr>],
         flight_logs_seq := flight_logs_seq db + 1\<rparr>)"
  by (simp add: add_flight_log_def Let_def)

lemma add_flight_log_Inl:
  "dumps telemetry_data = Inl e \<Longrightarrow> add_flight_log timestamp telemetry_data db = (Inl e, db)"
  by (simp add: add_flight_log_def)

lemma wf_db_add_flight_log:
  assumes "wf_db db"
  shows "wf_db (snd (add_flight_log timestamp telemetry_data db))"
proof (cases "dumps telemetry_data")
  case (Inl e)
  then show ?thesis using assms by (simp add: add_flight_log_Inl)
next
  case (Inr j)
  have "wf_table (map fr_id (flight_logs db) @ [flight_logs_seq db + 1]) (flight_logs_seq db + 1)"
    using assms wf_table_append by (simp add: wf_db_def)
  then show ?thesis using assms by (simp add: add_flight_log_Inr[OF Inr] wf_db_def)
qed

lemma wf_db_delete_flight_log:
  assumes "wf_db db"
  shows "wf_db (snd (delete_flight_log i db))"
  using assms wf_table_filter[of fr_id "flight_logs db" "flight_logs_seq db"]
  by (simp add: delete_flight_log_def wf_db_def)

lemma wf_db_add_detection:
  assumes "wf_db db"
  shows "wf_db (snd (add_detection timestamp category latitude longitude picture bhp worker change db))"
proof -
  have "wf_table (map dr_id (detections db) @ [detections_seq db + 1]) (detections_seq db + 1)"
    using assms wf_table_append by (simp add: wf_db_def)
  then show ?thesis using assms by (simp add: add_detection_def Let_def wf_db_def)
qed

lemma wf_db_update_detection:
  assumes "wf_db db"
  shows "wf_db (snd (update_detection i timestamp category latitude longitude picture bhp worker change db))"
proof (cases "get_detection i db")
  case (Inl e)
  then show ?thesis using assms by (simp add: update_detection_def)
next
  case (Inr d)
  show ?thesis
  proof (cases d)
    case None
    then show ?thesis using Inr assms by (simp add: update_detection_absent)
  next
    case (Some current)
    then have g: "get_detection i db = Inr (Some current)" using Inr by simp
    let ?m = "merged current timestamp category latitude longitude picture bhp worker change"
    have "map dr_id (map (\<lambda>r. if dr_id r = i then written ?m r else r) (detections db)) =
          map dr_id (detections db)"
      by (rule map_id_map) (rule dr_id_written)
    then show ?thesis
      using assms unfolding update_detection_found[OF g]
      by (simp add: wf_db_def del: map_map)
  qed
qed

lemma wf_db_delete_detection:
  assumes "wf_db db"
  shows "wf_db (snd (delete_detection i db))"
  using assms wf_table_filter[of dr_id "detections db" "detections_seq db"]
  by (simp add: delete_detection_def wf_db_def)

lemma wf_db_perform:
  assumes "wf_db db"
  shows "wf_db (snd (perform c db))"
proof (cases c)
  case (AddFlightLog ts td)
  then show ?thesis using wf_db_add_flight_log[OF assms, of ts td]
    by (auto split: prod.splits sum.splits)
next
  case (DeleteFlightLog i)
  then show ?thesis using wf_db_delete_flight_log[OF assms, of i]
    by (auto split: prod.splits sum.splits)
next
  case (AddDetection ts cat lat lon pic b w ch)
  then show ?thesis using wf_db_add_detection[OF assms, of ts cat lat lon pic b w ch]
    by (auto split: prod.splits)
next
  case (UpdateDetection i ts cat lat lon pic b w ch)
  then show ?thesis using wf_db_update_detection[OF assms, of i ts cat lat lon pic b w ch]
    by (auto split: prod.splits sum.splits)
next
  case (DeleteDetection i)
  then show ?thesis using wf_db_delete_detection[OF assms, of i]
    by (auto split: prod.splits sum.splits)
qed (use assms in \<open>simp_all split: sum.splits\<close>)

lemma run_Cons:
  "run (c # cs) db =
     (fst (perform c db) # fst (run cs (snd (perform c db))), snd (run cs (snd (perform c db))))"
  by (simp split: prod.splits)

lemma wf_db_run: "wf_db db \<Longrightarrow> wf_db (snd (run cs db))"
proof (induction cs arbitrary: db)
  case Nil
  then show ?case by simp
next
  case (Cons c cs)
  from Cons.IH[OF wf_db_perform[OF Cons.prems, of c]]
  show ?case by (simp only: run_Cons snd_conv)
qed

text \<open>How a call changes the number of stored flight logs.\<close>

lemma perform_flight_logs_length:
  assumes "wf_db db"
  shows "int (length (flight_logs (snd (perform c db)))) =
         int (length (flight_logs db))
           + (if log_added (c, fst (perform c db)) then 1 else 0)
           - (if log_deleted (c, fst (perform c db)) then 1 else 0)"
proof (cases c)
  case (AddFlightLog ts td)
  show ?thesis
  proof (cases "dumps td")
    case (Inl e)
    then show ?thesis using AddFlightLog by (simp add: add_flight_log_Inl)
  next
    case (Inr j)
    then show ?thesis using AddFlightLog by (simp add: add_flight_log_Inr)
  qed
next
  case (DeleteFlightLog i)
  have d: "distinct (map fr_id (flight_logs db))"
    using assms wf_table_distinct by (auto simp: wf_db_def)
  show ?thesis
  proof (cases "sqlite_int64 i")
    case False
    then show ?thesis using DeleteFlightLog by (simp add: delete_flight_log_def)
  next
    case range: True
    show ?thesis
    proof (cases "i \<in> fr_id ` set (flight_logs db)")
      case True
      from length_filter_distinct[OF d True] filter_eq_in[OF True]
      show ?thesis using DeleteFlightLog range by (simp add: delete_flight_log_def)
    next
      case False
      then show ?thesis using DeleteFlightLog range
        by (simp add: delete_flight_log_def filter_notin filter_eq_notin)
    qed
  qed
next
  case (AddDetection ts cat lat lon pic b w ch)
  then show ?thesis by (simp add: add_detection_def Let_def)
next
  case (UpdateDetection i ts cat lat lon pic b w ch)
  then show ?thesis
    by (simp add: update_detection_def Let_def split: sum.splits option.splits)
next
  case (DeleteDetection i)
  then show ?thesis by (simp add: delete_detection_def)
qed (simp_all split: sum.splits)

lemma run_flight_logs_length:
  "wf_db db \<Longrightarrow>
   int (length (flight_logs (snd (run cs db)))) =
     int (length (flight_logs db))
       + int (length (filter log_added (zip cs (fst (run cs db)))))
       - int (length (filter log_deleted (zip cs (fst (run cs db)))))"
proof (induction cs arbitrary: db)
  case Nil
  then show ?case by simp
next
  case (Cons c cs)
  obtain r db' where p: "perform c db = (r, db')" by (cases "perform c db")
  obtain rs db'' where q: "run cs db' = (rs, db'')" by (cases "run cs db'")
  have wf': "wf_db db'" using wf_db_perform[OF Cons.prems, of c] p by simp
  from Cons.IH[OF wf'] q
  have ih: "int (length (flight_logs db'')) =
     int (length (flight_logs db')) + int (length (filter log_added (zip cs rs)))
       - int (length (filter log_deleted (zip cs rs)))" by simp
  from perform_flight_logs_length[OF Cons.prems, of c] p
  have st: "int (length (flight_logs db')) = int (length (flight_logs db))
           + (if log_added (c, r) then 1 else 0) - (if log_deleted (c, r) then 1 else 0)"
    by simp
  show ?case using ih st by (simp add: p q)
qed

section \<open>Deleting\<close>

lemma delete_flight_log_overflow:
  "\<not> sqlite_int64 i \<Longrightarrow> delete_flight_log i db = (Inl OverflowError, db)"
  by (simp add: delete_flight_log_def)

lemma delete_detection_overflow:
  "\<not> sqlite_int64 i \<Longrightarrow> delete_detection i db = (Inl OverflowError, db)"
  by (simp add: delete_detection_def)

lemma delete_flight_log_absent:
  "sqlite_int64 i \<Longrightarrow> i \<notin> fr_id ` set (flight_logs db) \<Longrightarrow>
   delete_flight_log i db = (Inr False, db)"
  by (simp add: delete_flight_log_def filter_notin filter_eq_notin)

lemma delete_detection_absent:
  "sqlite_int64 i \<Longrightarrow> i \<notin> dr_id ` set (detections db) \<Longrightarrow>
   delete_detection i db = (Inr False, db)"
  by (simp add: delete_detection_def filter_notin filter_eq_notin)

lemma delete_flight_log_present:
  assumes "wf_db db" and "sqlite_int64 i"
    and "find (\<lambda>r. fr_id r = i) (flight_logs db) = Some row"
  shows "delete_flight_log i db =
           (Inr True, db\<lparr>flight_logs := remove1 row (flight_logs db)\<rparr>)"
proof -
  have d: "distinct (map fr_id (flight_logs db))"
    using assms(1) wf_table_distinct by (auto simp: wf_db_def)
  show ?thesis
    using find_Some_filter[OF assms(3)] filter_remove1[OF d assms(3)] assms(2)
    by (simp add: delete_flight_log_def)
qed

lemma delete_detection_present:
  assumes "wf_db db" and "sqlite_int64 i"
    and "find (\<lambda>r. dr_id r = i) (detections db) = Some row"
  shows "delete_detection i db =
           (Inr True, db\<lparr>detections := remove1 row (detections db)\<rparr>)"
proof -
  have d: "distinct (map dr_id (detections db))"
    using assms(1) wf_table_distinct by (auto simp: wf_db_def)
  show ?thesis
    using find_Some_filter[OF assms(3)] filter_remove1[OF d assms(3)] assms(2)
    by (simp add: delete_detection_def)
qed

section \<open>Adding a detection and the flag columns\<close>

lemma add_detection_eq:
  "add_detection timestamp category latitude longitude picture bhp worker change db =
     (detections_seq db + 1,
      db\<lparr>detections := detections db @
            [\<lparr>dr_id = detections_seq db + 1, dr_timestamp = timestamp, dr_category = category,
              dr_latitude = latitude, dr_longitude = longitude, dr_picture = picture,
              dr_bhp = (if bhp then 1 else 0), dr_worker = (if worker then 1 else 0),
              dr_change = (if change then 1 else 0)\<rparr>],
         detections_seq := detections_seq db + 1\<rparr>)"
  by (simp add: add_detection_def Let_def)

lemma find_new_detection:
  assumes "wf_db db" and "dr_id row = detections_seq db + 1"
  shows "find (\<lambda>r. dr_id r = detections_seq db + 1) (detections db @ [row]) = Some row"
proof -
  have "wf_table (map dr_id (detections db)) (detections_seq db)"
    using assms(1) by (simp add: wf_db_def)
  from wf_table_fresh[OF this] have "detections_seq db + 1 \<notin> dr_id ` set (detections db)"
    by simp
  then show ?thesis using assms(2) by (rule find_append_last)
qed

lemma stored_flags_updated:
  assumes "get_detection i db = Inr (Some current)"
  shows "stored_flags i (snd (update_detection i timestamp category latitude longitude picture
                                bhp worker change db)) =
         Some (flag_ints (read_flags
                 (merged current timestamp category latitude longitude picture bhp worker change)))"
proof -
  from get_detection_Some[OF assms] obtain row where
    row: "find (\<lambda>r. dr_id r = i) (detections db) = Some row" by blast
  show ?thesis
    unfolding update_detection_found[OF assms]
    by (simp add: stored_flags_def find_map_same[where f = dr_id, OF dr_id_written] row
        written_def flag_ints_def read_flags_def)
qed

section \<open>The ids a sequence of calls hands out\<close>

lemma not_has_object_dumps: "\<not> has_object v \<Longrightarrow> \<exists>j. dumps v = Inr j"
  using dumps_Inl_has_object by (cases "dumps v") auto

lemma perform_seq_mono:
  "flight_logs_seq db \<le> flight_logs_seq (snd (perform c db)) \<and>
   detections_seq db \<le> detections_seq (snd (perform c db))"
proof (cases c)
  case (AddFlightLog ts td)
  then show ?thesis
    by (cases "dumps td") (simp_all add: add_flight_log_Inl add_flight_log_Inr)
next
  case (DeleteFlightLog i)
  then show ?thesis by (simp add: delete_flight_log_def)
next
  case (AddDetection ts cat lat lon pic b w ch)
  then show ?thesis by (simp add: add_detection_def Let_def)
next
  case (UpdateDetection i ts cat lat lon pic b w ch)
  then show ?thesis
    by (simp add: update_detection_def Let_def split: sum.splits option.splits)
next
  case (DeleteDetection i)
  then show ?thesis by (simp add: delete_detection_def)
qed (simp_all split: sum.splits)

lemma flight_log_ids_Cons:
  "flight_log_ids ((c, fst (perform c db)) # crs) = flight_log_ids crs \<or>
   flight_log_ids ((c, fst (perform c db)) # crs) = (flight_logs_seq db + 1) # flight_log_ids crs \<and>
     flight_logs_seq (snd (perform c db)) = flight_logs_seq db + 1"
proof (cases c)
  case (AddFlightLog ts td)
  then show ?thesis
    by (cases "dumps td") (simp_all add: add_flight_log_Inl add_flight_log_Inr)
next
  case (DeleteFlightLog i)
  then show ?thesis by (simp add: delete_flight_log_def)
next
  case (AddDetection ts cat lat lon pic b w ch)
  then show ?thesis by (simp add: add_detection_def Let_def)
next
  case (UpdateDetection i ts cat lat lon pic b w ch)
  then show ?thesis
    by (simp add: update_detection_def Let_def split: sum.splits option.splits)
next
  case (DeleteDetection i)
  then show ?thesis by (simp add: delete_detection_def)
qed (simp_all split: sum.splits)

lemma detection_ids_Cons:
  "detection_ids ((c, fst (perform c db)) # crs) = detection_ids crs \<or>
   detection_ids ((c, fst (perform c db)) # crs) = (detections_seq db + 1) # detection_ids crs \<and>
     detections_seq (snd (perform c db)) = detections_seq db + 1"
proof (cases c)
  case (AddFlightLog ts td)
  then show ?thesis
    by (cases "dumps td") (simp_all add: add_flight_log_Inl add_flight_log_Inr)
next
  case (DeleteFlightLog i)
  then show ?thesis by (simp add: delete_flight_log_def)
next
  case (AddDetection ts cat lat lon pic b w ch)
  then show ?thesis by (simp add: add_detection_def Let_def)
next
  case (UpdateDetection i ts cat lat lon pic b w ch)
  then show ?thesis
    by (simp add: update_detection_def Let_def split: sum.splits option.splits)
next
  case (DeleteDetection i)
  then show ?thesis by (simp add: delete_detection_def)
qed (simp_all split: sum.splits)

lemma run_flight_log_ids:
  "sorted_wrt (<) (flight_log_ids (zip cs (fst (run cs db)))) \<and>
   (\<forall>i \<in> set (flight_log_ids (zip cs (fst (run cs db)))). flight_logs_seq db < i)"
proof (induction cs arbitrary: db)
  case Nil
  then show ?case by simp
next
  case (Cons c cs)
  let ?db' = "snd (perform c db)"
  let ?crs = "zip cs (fst (run cs ?db'))"
  have z: "zip (c # cs) (fst (run (c # cs) db)) = (c, fst (perform c db)) # ?crs"
    by (simp only: run_Cons fst_conv zip_Cons_Cons)
  have ih: "sorted_wrt (<) (flight_log_ids ?crs)"
    "\<forall>i \<in> set (flight_log_ids ?crs). flight_logs_seq ?db' < i"
    using Cons.IH[of ?db'] by auto
  have mono: "flight_logs_seq db \<le> flight_logs_seq ?db'" using perform_seq_mono by blast
  from flight_log_ids_Cons[of c db ?crs] show ?case
  proof
    assume "flight_log_ids ((c, fst (perform c db)) # ?crs) = flight_log_ids ?crs"
    then show ?thesis unfolding z using ih mono by auto
  next
    assume "flight_log_ids ((c, fst (perform c db)) # ?crs) =
              (flight_logs_seq db + 1) # flight_log_ids ?crs \<and>
            flight_logs_seq ?db' = flight_logs_seq db + 1"
    then show ?thesis unfolding z using ih by auto
  qed
qed

lemma run_detection_ids:
  "sorted_wrt (<) (detection_ids (zip cs (fst (run cs db)))) \<and>
   (\<forall>i \<in> set (detection_ids (zip cs (fst (run cs db)))). detections_seq db < i)"
proof (induction cs arbitrary: db)
  case Nil
  then show ?case by simp
next
  case (Cons c cs)
  let ?db' = "snd (perform c db)"
  let ?crs = "zip cs (fst (run cs ?db'))"
  have z: "zip (c # cs) (fst (run (c # cs) db)) = (c, fst (perform c db)) # ?crs"
    by (simp only: run_Cons fst_conv zip_Cons_Cons)
  have ih: "sorted_wrt (<) (detection_ids ?crs)"
    "\<forall>i \<in> set (detection_ids ?crs). detections_seq ?db' < i"
    using Cons.IH[of ?db'] by auto
  have mono: "detections_seq db \<le> detections_seq ?db'" using perform_seq_mono by blast
  from detection_ids_Cons[of c db ?crs] show ?case
  proof
    assume "detection_ids ((c, fst (perform c db)) # ?crs) = detection_ids ?crs"
    then show ?thesis unfolding z using ih mono by auto
  next
    assume "detection_ids ((c, fst (perform c db)) # ?crs) =
              (detections_seq db + 1) # detection_ids ?crs \<and>
            detections_seq ?db' = detections_seq db + 1"
    then show ?thesis unfolding z using ih by auto
  qed
qed

section \<open>The sample database\<close>

lemma wf_sample_db: "wf_db sample_db"
  by (simp add: wf_db_def wf_table_def sample_db_def)

section \<open>Counting the adds of a sequence of calls\<close>

lemma has_object_iff: "has_object v \<longleftrightarrow> (\<exists>e. dumps v = Inl e)"
  using dumps_has_object dumps_Inl_has_object by blast

lemma log_added_perform:
  "log_added (c, fst (perform c db)) \<longleftrightarrow> is_add_flight_log c \<and> serializable c"
proof (cases c)
  case (AddFlightLog ts td)
  then show ?thesis
    by (cases "dumps td") (auto simp: add_flight_log_Inl add_flight_log_Inr has_object_iff)
next
  case (DeleteFlightLog i)
  then show ?thesis by (simp add: delete_flight_log_def)
next
  case (AddDetection ts cat lat lon pic b w ch)
  then show ?thesis by (simp add: add_detection_def Let_def)
next
  case (UpdateDetection i ts cat lat lon pic b w ch)
  then show ?thesis
    by (simp add: update_detection_def Let_def split: sum.splits option.splits)
next
  case (DeleteDetection i)
  then show ?thesis by (simp add: delete_detection_def)
qed (simp_all split: sum.splits)

lemma run_added_count:
  "length (filter log_added (zip cs (fst (run cs db)))) =
   length (filter (\<lambda>c. is_add_flight_log c \<and> serializable c) cs)"
proof (induction cs arbitrary: db)
  case Nil
  then show ?case by simp
next
  case (Cons c cs)
  have z: "zip (c # cs) (fst (run (c # cs) db)) =
             (c, fst (perform c db)) # zip cs (fst (run cs (snd (perform c db))))"
    by (simp only: run_Cons fst_conv zip_Cons_Cons)
  show ?case unfolding z using Cons.IH[of "snd (perform c db)"]
    by (simp add: log_added_perform del: log_added.simps)
qed

lemma filter_serializable:
  "list_all serializable cs \<Longrightarrow>
   filter (\<lambda>c. is_add_flight_log c \<and> serializable c) cs = filter is_add_flight_log cs"
  by (induction cs) auto

section \<open>Properties of the record store\<close>

text \<open>
  C1 (round trip of a flight log). In any database file that satisfies the schema invariant
  \<open>wf_db\<close> (every file this class creates and maintains does), for any timestamp and any
  telemetry that is a dict from channel names to lists of numbers or booleans,
  \<open>add_flight_log\<close> returns an id, the list of all flight logs grows by the record with this
  id, the same timestamp and the same telemetry, and \<open>get_flight_log\<close> on that id returns
  this record. Equality is structural, so a boolean comes back as a boolean (\<open>PBool True\<close>
  is not \<open>PInt 1\<close>) and an int as an int.

  \<open>get_flight_log\<close> binds the id it is given, so it can return the record only for a signed
  64-bit id. Every rowid of the engine is one (at the largest rowid the \<open>INSERT\<close> itself
  fails, a state of the table that is not modelled).
\<close>

theorem flight_log_round_trip:
  assumes "wf_db db" and "valid_telemetry telemetry_data"
  shows "\<exists>i db'. add_flight_log timestamp telemetry_data db = (Inr i, db') \<and>
           get_all_flight_logs db' =
             get_all_flight_logs db @
               [\<lparr>fl_id = i, fl_timestamp = timestamp, fl_telemetry_data = telemetry_data\<rparr>] \<and>
           (sqlite_int64 i \<longrightarrow>
              get_flight_log i db' =
                Inr (Some \<lparr>fl_id = i, fl_timestamp = timestamp,
                           fl_telemetry_data = telemetry_data\<rparr>))"
proof -
  from dumps_exact[OF valid_telemetry_exact[OF assms(2)]]
  obtain j where j: "dumps telemetry_data = Inr j" "loads j = telemetry_data" by blast
  let ?i = "flight_logs_seq db + 1"
  let ?row = "\<lparr>fr_id = ?i, fr_timestamp = timestamp, fr_telemetry_data = j\<rparr>"
  have "wf_table (map fr_id (flight_logs db)) (flight_logs_seq db)"
    using assms(1) by (simp add: wf_db_def)
  from wf_table_fresh[OF this] have "?i \<notin> fr_id ` set (flight_logs db)" by simp
  then have "find (\<lambda>r. fr_id r = ?i) (flight_logs db @ [?row]) = Some ?row"
    by (rule find_append_last) simp
  then show ?thesis
    by (simp add: add_flight_log_Inr[OF j(1)] get_flight_log_in_range get_all_flight_logs_def
        flight_log_of_row_def j(2))
qed

theorem flight_log_round_trip_witness:
  "wf_db create_tables \<and>
   valid_telemetry
     (PDict [(''Roll'', PList [PFloat 1.0, PFloat 1.5]),
             (''Armed'', PList [PBool True, PBool True])]) \<and>
   (\<exists>i db'.
      add_flight_log ''2024-01-01T00:00:00''
        (PDict [(''Roll'', PList [PFloat 1.0, PFloat 1.5]),
                (''Armed'', PList [PBool True, PBool True])]) create_tables = (Inr i, db') \<and>
      sqlite_int64 i \<and>
      get_flight_log i db' =
        Inr (Some \<lparr>fl_id = i, fl_timestamp = ''2024-01-01T00:00:00'',
                   fl_telemetry_data =
                     PDict [(''Roll'', PList [PFloat 1.0, PFloat 1.5]),
                            (''Armed'', PList [PBool True, PBool True])]\<rparr>))"
proof -
  let ?t = "PDict [(''Roll'', PList [PFloat 1.0, PFloat 1.5]),
                   (''Armed'', PList [PBool True, PBool True])]"
  have a: "wf_db create_tables" by (rule wf_db_create_tables)
  have b: "valid_telemetry ?t" by simp
  from flight_log_round_trip[OF a b, of "''2024-01-01T00:00:00''"]
  obtain i db' where
    r: "add_flight_log ''2024-01-01T00:00:00'' ?t create_tables = (Inr i, db')"
      "sqlite_int64 i \<longrightarrow>
         get_flight_log i db' =
           Inr (Some \<lparr>fl_id = i, fl_timestamp = ''2024-01-01T00:00:00'',
                      fl_telemetry_data = ?t\<rparr>)"
    by blast
  have "i = 1" using r(1) by (simp add: add_flight_log_def create_tables_def Let_def)
  then have c: "sqlite_int64 i" by (simp add: sqlite_int64_def)
  from a b r c show ?thesis by blast
qed

text \<open>
  C2 (an update changes only what it is given). If \<open>get_detection\<close> finds a record for the
  id, then \<open>update_detection\<close> returns True, and afterwards \<open>get_detection\<close> on that id returns
  the record read before with exactly the provided fields replaced; every other detection
  reads as before, no row is added or removed, and the flight logs are untouched. The
  function reads the current record first, merges and writes the merged columns.
\<close>

theorem update_detection_changes_only_provided:
  assumes "get_detection detection_id db = Inr (Some current)"
  shows
    "\<exists>db'. update_detection detection_id timestamp category latitude longitude picture bhp
              worker change db = (Inr True, db') \<and>
           get_detection detection_id db' =
             Inr (Some (merged current timestamp category latitude longitude picture bhp
                          worker change)) \<and>
           (\<forall>j. j \<noteq> detection_id \<longrightarrow> get_detection j db' = get_detection j db) \<and>
           map dr_id (detections db') = map dr_id (detections db) \<and>
           detections_seq db' = detections_seq db \<and>
           flight_logs db' = flight_logs db \<and> flight_logs_seq db' = flight_logs_seq db"
proof -
  let ?u = "update_detection detection_id timestamp category latitude longitude picture bhp
              worker change db"
  let ?m = "merged current timestamp category latitude longitude picture bhp worker change"
  have u: "?u = (Inr True, db\<lparr>detections :=
             map (\<lambda>r. if dr_id r = detection_id then written ?m r else r) (detections db)\<rparr>)"
    by (rule update_detection_found[OF assms])
  have g: "get_detection detection_id (snd ?u) = Inr (Some ?m)"
    by (rule get_detection_updated[OF assms])
  have o: "\<forall>j. j \<noteq> detection_id \<longrightarrow> get_detection j (snd ?u) = get_detection j db"
    using get_detection_update_other by blast
  have ids: "map dr_id (detections (snd ?u)) = map dr_id (detections db)"
    unfolding u using map_id_map[where f = dr_id, OF dr_id_written] by (simp del: map_map)
  have rest: "detections_seq (snd ?u) = detections_seq db \<and>
    flight_logs (snd ?u) = flight_logs db \<and> flight_logs_seq (snd ?u) = flight_logs_seq db"
    unfolding u by simp
  have "?u = (Inr True, snd ?u)" unfolding u by simp
  with g o ids rest show ?thesis by blast
qed

theorem update_detection_changes_only_provided_witness:
  "get_detection 1 sample_db =
     Inr (Some \<lparr>det_id = 1, det_timestamp = ''2024-01-01T00:00:00'',
                det_category = ''Worker'', det_latitude = 52.2297, det_longitude = 21.0122,
                det_picture = Some ''/path/to/worker.jpg'', det_bhp = True,
                det_worker = True, det_change = False\<rparr>) \<and>
   (\<exists>db'. update_detection 1 None (Some ''X'') None None None None None None sample_db =
            (Inr True, db') \<and>
          get_detection 1 db' =
            Inr (Some \<lparr>det_id = 1, det_timestamp = ''2024-01-01T00:00:00'',
                       det_category = ''X'', det_latitude = 52.2297, det_longitude = 21.0122,
                       det_picture = Some ''/path/to/worker.jpg'', det_bhp = True,
                       det_worker = True, det_change = False\<rparr>))"
proof -
  let ?cur = "\<lparr>det_id = 1, det_timestamp = ''2024-01-01T00:00:00'', det_category = ''Worker'',
           det_latitude = 52.2297, det_longitude = 21.0122,
           det_picture = Some ''/path/to/worker.jpg'', det_bhp = True, det_worker = True,
           det_change = False\<rparr>"
  have a: "get_detection 1 sample_db = Inr (Some ?cur)"
    by (simp add: get_detection_def sqlite_int64_def sample_db_def detection_of_row_def
        py_bool_def)
  from update_detection_changes_only_provided
         [OF a, of None "Some ''X''" None None None None None None] a
  show ?thesis by (auto simp: merged_def)
qed

text \<open>
  C3 (updating an id that is not stored). As the claim states it, for every id that matches
  no stored detection \<open>update_detection\<close> returns False and raises nothing. That fails for
  an id that is no signed 64-bit number: \<open>get_detection\<close>, which \<open>update_detection\<close> calls
  first, cannot bind it and raises OverflowError.
\<close>

theorem update_detection_missing_id_counterexample:
  "9223372036854775808 \<notin> dr_id ` set (detections sample_db) \<and>
   update_detection 9223372036854775808 None (Some ''Non-existent'') None None None None None
     None sample_db = (Inl OverflowError, sample_db) \<and>
   fst (update_detection 9223372036854775808 None (Some ''Non-existent'') None None None None
          None None sample_db) \<noteq> Inr False"
  by (simp add: update_detection_def get_detection_def sqlite_int64_def sample_db_def)

text \<open>
  C3, amended. For every id within the signed 64-bit range that matches no stored detection,
  \<open>update_detection\<close>, with any combination of field arguments, returns False (it raises
  nothing) and the database is exactly as before; in particular no row is created.
\<close>

theorem update_detection_missing_id:
  assumes "sqlite_int64 detection_id"
    and "detection_id \<notin> dr_id ` set (detections db)"
  shows "update_detection detection_id timestamp category latitude longitude picture bhp worker
           change db = (Inr False, db)"
proof -
  have "get_detection detection_id db = Inr None"
    using assms by (simp add: get_detection_in_range find_None_notin)
  then show ?thesis by (rule update_detection_absent)
qed

theorem update_detection_missing_id_witness:
  "sqlite_int64 999 \<and> 999 \<notin> dr_id ` set (detections sample_db) \<and>
   update_detection 999 None (Some ''Non-existent'') None None None None None None sample_db =
     (Inr False, sample_db)"
proof -
  have r: "sqlite_int64 999" by (simp add: sqlite_int64_def)
  have a: "999 \<notin> dr_id ` set (detections sample_db)" by (simp add: sample_db_def)
  from update_detection_missing_id[OF r a] r a show ?thesis by blast
qed

text \<open>
  C4 (the flags are integers in the file and booleans for the caller). \<open>add_detection\<close> stores
  each flag as 1 or 0, and reading the new id back, alone or in the list of all detections,
  gives the three booleans that were passed. \<open>update_detection\<close> on a stored id stores the
  merged flags as 1 or 0, and reading the id back gives the merged booleans. On every
  database file both read paths return, for each flag, the boolean "the stored integer is
  not zero"; the dictionaries they build have boolean flag fields. (\<open>get_detection\<close> binds
  the id it is given, so it returns a record only for a signed 64-bit id, as every rowid of
  the engine is, and raises OverflowError for any other.)
\<close>

theorem detection_flags_ints_stored_bools_read:
  assumes "wf_db db"
  shows
    "(\<forall>i db'. add_detection timestamp category latitude longitude picture bhp worker change db
                 = (i, db') \<longrightarrow>
        stored_flags i db' = Some (flag_ints (bhp, worker, change)) \<and>
        (sqlite_int64 i \<longrightarrow>
           map_sum id (map_option read_flags) (get_detection i db') =
             Inr (Some (bhp, worker, change))) \<and>
        map read_flags (get_all_detections db') =
          map read_flags (get_all_detections db) @ [(bhp, worker, change)]) \<and>
     (\<forall>current. get_detection j db = Inr (Some current) \<longrightarrow>
        stored_flags j (snd (update_detection j t c la lo p b w ch db)) =
          Some (flag_ints (read_flags (merged current t c la lo p b w ch))) \<and>
        map_sum id (map_option read_flags)
            (get_detection j (snd (update_detection j t c la lo p b w ch db))) =
          Inr (Some (read_flags (merged current t c la lo p b w ch)))) \<and>
     map_sum id (map_option read_flags) (get_detection j db) =
       (if sqlite_int64 j
        then Inr (map_option (\<lambda>(x, y, z). (x \<noteq> 0, y \<noteq> 0, z \<noteq> 0)) (stored_flags j db))
        else Inl OverflowError) \<and>
     map read_flags (get_all_detections db) =
       map (\<lambda>r. (dr_bhp r \<noteq> 0, dr_worker r \<noteq> 0, dr_change r \<noteq> 0)) (detections db)"
proof -
  let ?i = "detections_seq db + 1"
  let ?row = "\<lparr>dr_id = ?i, dr_timestamp = timestamp, dr_category = category,
              dr_latitude = latitude, dr_longitude = longitude, dr_picture = picture,
              dr_bhp = (if bhp then 1 else 0), dr_worker = (if worker then 1 else 0),
              dr_change = (if change then (1::int) else 0)\<rparr>"
  have f: "find (\<lambda>r. dr_id r = ?i) (detections db @ [?row]) = Some ?row"
    by (rule find_new_detection[OF assms]) simp
  have add: "\<forall>i db'. add_detection timestamp category latitude longitude picture bhp worker change db
                 = (i, db') \<longrightarrow>
        stored_flags i db' = Some (flag_ints (bhp, worker, change)) \<and>
        (sqlite_int64 i \<longrightarrow>
           map_sum id (map_option read_flags) (get_detection i db') =
             Inr (Some (bhp, worker, change))) \<and>
        map read_flags (get_all_detections db') =
          map read_flags (get_all_detections db) @ [(bhp, worker, change)]"
    unfolding add_detection_eq
    using f
    by (auto simp: stored_flags_def flag_ints_def get_detection_def read_flags_def
        detection_of_row_def py_bool_def get_all_detections_def)
  have upd: "\<forall>current. get_detection j db = Inr (Some current) \<longrightarrow>
        stored_flags j (snd (update_detection j t c la lo p b w ch db)) =
          Some (flag_ints (read_flags (merged current t c la lo p b w ch))) \<and>
        map_sum id (map_option read_flags)
            (get_detection j (snd (update_detection j t c la lo p b w ch db))) =
          Inr (Some (read_flags (merged current t c la lo p b w ch)))"
    using stored_flags_updated get_detection_updated by simp
  have rd1: "map_sum id (map_option read_flags) (get_detection j db) =
       (if sqlite_int64 j
        then Inr (map_option (\<lambda>(x, y, z). (x \<noteq> 0, y \<noteq> 0, z \<noteq> 0)) (stored_flags j db))
        else Inl OverflowError)"
    by (cases "find (\<lambda>r. dr_id r = j) (detections db)")
       (simp_all add: get_detection_def stored_flags_def read_flags_def detection_of_row_def
          py_bool_def)
  have rd2: "map read_flags (get_all_detections db) =
       map (\<lambda>r. (dr_bhp r \<noteq> 0, dr_worker r \<noteq> 0, dr_change r \<noteq> 0)) (detections db)"
    by (simp add: get_all_detections_def read_flags_def detection_of_row_def py_bool_def)
  from add upd rd1 rd2 show ?thesis by blast
qed

theorem detection_flags_ints_stored_bools_read_witness:
  "wf_db sample_db \<and>
   stored_flags 3
     (snd (add_detection ''2024-01-02T00:00:00'' ''Worker'' 52.1 21.1 None True False True
             sample_db)) = Some (1, 0, 1) \<and>
   sqlite_int64 3 \<and>
   map_sum id (map_option read_flags)
     (get_detection 3
        (snd (add_detection ''2024-01-02T00:00:00'' ''Worker'' 52.1 21.1 None True False True
                sample_db))) = Inr (Some (True, False, True)) \<and>
   stored_flags 2
     (snd (update_detection 2 None (Some ''Critical Hazard'') None None None (Some False) None
             None sample_db)) = Some (0, 0, 1) \<and>
   map_sum id (map_option read_flags)
     (get_detection 2
        (snd (update_detection 2 None (Some ''Critical Hazard'') None None None (Some False)
                None None sample_db))) = Inr (Some (False, False, True)) \<and>
   map read_flags (get_all_detections sample_db) = [(True, True, False), (False, False, True)]"
proof -
  let ?cur = "\<lparr>det_id = 2, det_timestamp = ''2024-01-01T00:00:00'', det_category = ''Hazard'',
       det_latitude = 52.2298, det_longitude = 21.0123, det_picture = None,
       det_bhp = False, det_worker = False, det_change = True\<rparr>"
  have r: "sqlite_int64 3" by (simp add: sqlite_int64_def)
  have g: "get_detection 2 sample_db = Inr (Some ?cur)"
    by (simp add: get_detection_def sqlite_int64_def sample_db_def detection_of_row_def
        py_bool_def)
  have a: "add_detection ''2024-01-02T00:00:00'' ''Worker'' 52.1 21.1 None True False True
             sample_db =
           (3, snd (add_detection ''2024-01-02T00:00:00'' ''Worker'' 52.1 21.1 None True False
                      True sample_db))"
    by (simp add: add_detection_eq sample_db_def)
  note flags = detection_flags_ints_stored_bools_read
      [OF wf_sample_db, of "''2024-01-02T00:00:00''" "''Worker''" "52.1" "21.1" None
         True False True 2 None "Some ''Critical Hazard''" None None None "Some False" None None]
  from flags a r have 1: "stored_flags 3
     (snd (add_detection ''2024-01-02T00:00:00'' ''Worker'' 52.1 21.1 None True False True
             sample_db)) = Some (flag_ints (True, False, True))"
    "map_sum id (map_option read_flags)
     (get_detection 3
        (snd (add_detection ''2024-01-02T00:00:00'' ''Worker'' 52.1 21.1 None True False True
                sample_db))) = Inr (Some (True, False, True))" by blast+
  from flags g have 2: "stored_flags 2
     (snd (update_detection 2 None (Some ''Critical Hazard'') None None None (Some False) None
             None sample_db)) =
       Some (flag_ints (read_flags (merged ?cur None (Some ''Critical Hazard'') None None None
          (Some False) None None)))"
    "map_sum id (map_option read_flags)
     (get_detection 2
        (snd (update_detection 2 None (Some ''Critical Hazard'') None None None (Some False)
                None None sample_db))) =
       Inr (Some (read_flags (merged ?cur None (Some ''Critical Hazard'') None None None
          (Some False) None None)))" by blast+
  from flags have 3: "map read_flags (get_all_detections sample_db) =
       map (\<lambda>r. (dr_bhp r \<noteq> 0, dr_worker r \<noteq> 0, dr_change r \<noteq> 0)) (detections sample_db)"
    by blast
  have 4: "map (\<lambda>r. (dr_bhp r \<noteq> 0, dr_worker r \<noteq> 0, dr_change r \<noteq> 0)) (detections sample_db)
     = [(True, True, False), (False, False, True)]"
    by (simp add: sample_db_def)
  show ?thesis using wf_sample_db r 1 2 3 4
    by (simp add: flag_ints_def read_flags_def merged_def)
qed

text \<open>
  C5 (delete returns True exactly when it removed a row). As the claim states it, for every
  id that matches no stored row the two deletes return False, not an error. That fails for
  an id that is no signed 64-bit number: the \<open>DELETE\<close> cannot bind it and the call raises
  OverflowError (the database stays as it was).
\<close>

theorem delete_true_iff_row_removed_counterexample:
  "9223372036854775808 \<notin> fr_id ` set (flight_logs sample_db) \<and>
   delete_flight_log 9223372036854775808 sample_db = (Inl OverflowError, sample_db) \<and>
   fst (delete_flight_log 9223372036854775808 sample_db) \<noteq> Inr False \<and>
   9223372036854775808 \<notin> dr_id ` set (detections sample_db) \<and>
   delete_detection 9223372036854775808 sample_db = (Inl OverflowError, sample_db) \<and>
   fst (delete_detection 9223372036854775808 sample_db) \<noteq> Inr False"
  by (simp add: delete_flight_log_def delete_detection_def sqlite_int64_def sample_db_def)

text \<open>
  C5, amended. For both tables and every id within the signed 64-bit range: if no stored row
  has the id, the delete returns False and the database is exactly as before; if a row has
  the id, the delete returns True and the table afterwards is the table before without that
  one row, and holds no row with the id; so the result is True if and only if a row with
  the id was stored.
\<close>

theorem delete_true_iff_row_removed:
  assumes "wf_db db" and "sqlite_int64 i"
  shows
    "(i \<notin> fr_id ` set (flight_logs db) \<longrightarrow> delete_flight_log i db = (Inr False, db)) \<and>
     (\<forall>row. find (\<lambda>r. fr_id r = i) (flight_logs db) = Some row \<longrightarrow>
        delete_flight_log i db =
          (Inr True, db\<lparr>flight_logs := remove1 row (flight_logs db)\<rparr>) \<and>
        i \<notin> fr_id ` set (remove1 row (flight_logs db))) \<and>
     fst (delete_flight_log i db) = Inr (i \<in> fr_id ` set (flight_logs db)) \<and>
     (i \<notin> dr_id ` set (detections db) \<longrightarrow> delete_detection i db = (Inr False, db)) \<and>
     (\<forall>row. find (\<lambda>r. dr_id r = i) (detections db) = Some row \<longrightarrow>
        delete_detection i db =
          (Inr True, db\<lparr>detections := remove1 row (detections db)\<rparr>) \<and>
        i \<notin> dr_id ` set (remove1 row (detections db))) \<and>
     fst (delete_detection i db) = Inr (i \<in> dr_id ` set (detections db))"
proof -
  have df: "distinct (map fr_id (flight_logs db))" and dd: "distinct (map dr_id (detections db))"
    using assms(1) wf_table_distinct by (auto simp: wf_db_def)
  have f_gone: "i \<notin> fr_id ` set (remove1 row (flight_logs db))"
    if "find (\<lambda>r. fr_id r = i) (flight_logs db) = Some row" for row
  proof -
    have "remove1 row (flight_logs db) = filter (\<lambda>r. fr_id r \<noteq> i) (flight_logs db)"
      using filter_remove1[OF df that] by simp
    then show ?thesis by auto
  qed
  have d_gone: "i \<notin> dr_id ` set (remove1 row (detections db))"
    if "find (\<lambda>r. dr_id r = i) (detections db) = Some row" for row
  proof -
    have "remove1 row (detections db) = filter (\<lambda>r. dr_id r \<noteq> i) (detections db)"
      using filter_remove1[OF dd that] by simp
    then show ?thesis by auto
  qed
  have f_iff: "fst (delete_flight_log i db) = Inr (i \<in> fr_id ` set (flight_logs db))"
    using filter_eq_in[of i fr_id "flight_logs db"] filter_eq_notin[of i fr_id "flight_logs db"]
      assms(2)
    by (auto simp: delete_flight_log_def)
  have d_iff: "fst (delete_detection i db) = Inr (i \<in> dr_id ` set (detections db))"
    using filter_eq_in[of i dr_id "detections db"] filter_eq_notin[of i dr_id "detections db"]
      assms(2)
    by (auto simp: delete_detection_def)
  show ?thesis
    using delete_flight_log_absent[OF assms(2), of db]
      delete_detection_absent[OF assms(2), of db]
      delete_flight_log_present[OF assms] delete_detection_present[OF assms]
      f_gone d_gone f_iff d_iff
    by blast
qed

theorem delete_true_iff_row_removed_witness:
  "wf_db sample_db \<and> sqlite_int64 999 \<and> sqlite_int64 2 \<and> sqlite_int64 1 \<and>
   999 \<notin> fr_id ` set (flight_logs sample_db) \<and>
   delete_flight_log 999 sample_db = (Inr False, sample_db) \<and>
   delete_flight_log 2 sample_db = (Inr True, sample_db\<lparr>flight_logs := []\<rparr>) \<and>
   999 \<notin> dr_id ` set (detections sample_db) \<and>
   delete_detection 999 sample_db = (Inr False, sample_db) \<and>
   get_all_detections (snd (delete_detection 1 sample_db)) =
     [\<lparr>det_id = 2, det_timestamp = ''2024-01-01T00:00:00'', det_category = ''Hazard'',
       det_latitude = 52.2298, det_longitude = 21.0123, det_picture = None,
       det_bhp = False, det_worker = False, det_change = True\<rparr>]"
proof -
  have r: "sqlite_int64 999" "sqlite_int64 2" "sqlite_int64 1"
    by (simp_all add: sqlite_int64_def)
  have a: "999 \<notin> fr_id ` set (flight_logs sample_db)"
    and b: "999 \<notin> dr_id ` set (detections sample_db)"
    by (simp_all add: sample_db_def)
  have f: "find (\<lambda>r. fr_id r = 2) (flight_logs sample_db) = Some (hd (flight_logs sample_db))"
    by (simp add: sample_db_def)
  have d: "find (\<lambda>r. dr_id r = 1) (detections sample_db) = Some (hd (detections sample_db))"
    by (simp add: sample_db_def)
  from delete_true_iff_row_removed[OF wf_sample_db r(1)] a b
  have 1: "delete_flight_log 999 sample_db = (Inr False, sample_db)"
    "delete_detection 999 sample_db = (Inr False, sample_db)" by blast+
  from delete_true_iff_row_removed[OF wf_sample_db r(2)] f
  have 2: "delete_flight_log 2 sample_db =
      (Inr True,
       sample_db\<lparr>flight_logs := remove1 (hd (flight_logs sample_db)) (flight_logs sample_db)\<rparr>)"
    by blast
  from delete_true_iff_row_removed[OF wf_sample_db r(3)] d
  have 3: "delete_detection 1 sample_db =
      (Inr True,
       sample_db\<lparr>detections := remove1 (hd (detections sample_db)) (detections sample_db)\<rparr>)"
    by blast
  have 4: "remove1 (hd (flight_logs sample_db)) (flight_logs sample_db) = []"
    by (simp add: sample_db_def)
  have 5: "get_all_detections
      (sample_db\<lparr>detections := remove1 (hd (detections sample_db)) (detections sample_db)\<rparr>) =
     [\<lparr>det_id = 2, det_timestamp = ''2024-01-01T00:00:00'', det_category = ''Hazard'',
       det_latitude = 52.2298, det_longitude = 21.0123, det_picture = None,
       det_bhp = False, det_worker = False, det_change = True\<rparr>]"
    by (simp add: sample_db_def get_all_detections_def detection_of_row_def py_bool_def)
  show ?thesis using wf_sample_db r a b 1 2 3 4 5 by simp
qed

text \<open>
  C6 (a missing id is not an error). As the claim states it, for every id not in the store
  \<open>get_flight_log\<close> and \<open>get_detection\<close> return None rather than raising. That fails for an
  id that is no signed 64-bit number: the \<open>SELECT\<close> cannot bind it and the call raises
  OverflowError.
\<close>

theorem get_missing_id_returns_None_counterexample:
  "9223372036854775808 \<notin> fr_id ` set (flight_logs sample_db) \<and>
   get_flight_log 9223372036854775808 sample_db = Inl OverflowError \<and>
   get_flight_log 9223372036854775808 sample_db \<noteq> Inr None \<and>
   9223372036854775808 \<notin> dr_id ` set (detections sample_db) \<and>
   get_detection 9223372036854775808 sample_db = Inl OverflowError \<and>
   get_detection 9223372036854775808 sample_db \<noteq> Inr None"
  by (simp add: get_flight_log_def get_detection_def sqlite_int64_def sample_db_def)

text \<open>
  C6, amended. For every id within the signed 64-bit range: if no stored flight log has the
  id, \<open>get_flight_log\<close> returns None; if no stored detection has the id, \<open>get_detection\<close>
  returns None; neither raises.
\<close>

theorem get_missing_id_returns_None:
  assumes "sqlite_int64 log_id" and "sqlite_int64 detection_id"
  shows
    "(log_id \<notin> fr_id ` set (flight_logs db) \<longrightarrow> get_flight_log log_id db = Inr None) \<and>
     (detection_id \<notin> dr_id ` set (detections db) \<longrightarrow>
        get_detection detection_id db = Inr None)"
  using assms
  by (simp add: get_flight_log_in_range get_detection_in_range find_None_notin)

theorem get_missing_id_returns_None_witness:
  "sqlite_int64 999 \<and>
   999 \<notin> fr_id ` set (flight_logs sample_db) \<and> get_flight_log 999 sample_db = Inr None \<and>
   999 \<notin> dr_id ` set (detections sample_db) \<and> get_detection 999 sample_db = Inr None"
proof -
  have r: "sqlite_int64 999" by (simp add: sqlite_int64_def)
  have a: "999 \<notin> fr_id ` set (flight_logs sample_db)" by (simp add: sample_db_def)
  have b: "999 \<notin> dr_id ` set (detections sample_db)" by (simp add: sample_db_def)
  from get_missing_id_returns_None[OF r r, of sample_db] r a b show ?thesis by blast
qed

text \<open>
  C7 (how many flight logs are stored). After any sequence of calls on a freshly created
  database, the list \<open>get_all_flight_logs\<close> returns is as long as the number of
  \<open>add_flight_log\<close> calls that returned an id minus the number of \<open>delete_flight_log\<close> calls
  that returned True. A call of \<open>add_flight_log\<close> that raises inserts nothing; when every
  call of the sequence carries serializable telemetry, every \<open>add_flight_log\<close> call returns
  an id and the first number is the number of \<open>add_flight_log\<close> calls in the sequence. On a
  freshly created database the list is empty.
\<close>

theorem flight_log_count:
  "int (length (get_all_flight_logs (snd (run cs create_tables)))) =
     int (length (filter log_added (zip cs (fst (run cs create_tables)))))
       - int (length (filter log_deleted (zip cs (fst (run cs create_tables))))) \<and>
   (list_all serializable cs \<longrightarrow>
      int (length (get_all_flight_logs (snd (run cs create_tables)))) =
        int (length (filter is_add_flight_log cs))
          - int (length (filter log_deleted (zip cs (fst (run cs create_tables)))))) \<and>
   get_all_flight_logs create_tables = []"
proof -
  have g: "int (length (get_all_flight_logs (snd (run cs create_tables)))) =
     int (length (filter log_added (zip cs (fst (run cs create_tables)))))
       - int (length (filter log_deleted (zip cs (fst (run cs create_tables)))))"
    using run_flight_logs_length[OF wf_db_create_tables, of cs]
    by (simp add: get_all_flight_logs_def create_tables_def)
  have s: "int (length (get_all_flight_logs (snd (run cs create_tables)))) =
        int (length (filter is_add_flight_log cs))
          - int (length (filter log_deleted (zip cs (fst (run cs create_tables)))))"
    if "list_all serializable cs"
    using g run_added_count[of cs create_tables] filter_serializable[OF that] by simp
  have e: "get_all_flight_logs create_tables = []"
    by (simp add: get_all_flight_logs_def create_tables_def)
  from g s e show ?thesis by blast
qed

theorem flight_log_count_witness:
  "list_all serializable
     [AddFlightLog ''2024-01-01T00:00:00'' sample_telemetry,
      AddFlightLog ''2024-01-02T00:00:00'' sample_telemetry,
      DeleteFlightLog 1, DeleteFlightLog 999, GetAllFlightLogs] \<and>
   length (get_all_flight_logs
     (snd (run [AddFlightLog ''2024-01-01T00:00:00'' sample_telemetry,
                AddFlightLog ''2024-01-02T00:00:00'' sample_telemetry,
                DeleteFlightLog 1, DeleteFlightLog 999, GetAllFlightLogs] create_tables))) = 1 \<and>
   length (filter is_add_flight_log
     [AddFlightLog ''2024-01-01T00:00:00'' sample_telemetry,
      AddFlightLog ''2024-01-02T00:00:00'' sample_telemetry,
      DeleteFlightLog 1, DeleteFlightLog 999, GetAllFlightLogs]) = 2 \<and>
   length (filter log_deleted
     (zip [AddFlightLog ''2024-01-01T00:00:00'' sample_telemetry,
           AddFlightLog ''2024-01-02T00:00:00'' sample_telemetry,
           DeleteFlightLog 1, DeleteFlightLog 999, GetAllFlightLogs]
        (fst (run [AddFlightLog ''2024-01-01T00:00:00'' sample_telemetry,
                   AddFlightLog ''2024-01-02T00:00:00'' sample_telemetry,
                   DeleteFlightLog 1, DeleteFlightLog 999, GetAllFlightLogs]
                create_tables)))) = 1"
proof -
  let ?cs = "[AddFlightLog ''2024-01-01T00:00:00'' sample_telemetry,
                AddFlightLog ''2024-01-02T00:00:00'' sample_telemetry,
                DeleteFlightLog 1, DeleteFlightLog 999, GetAllFlightLogs]"
  have s: "list_all serializable ?cs" by (simp add: sample_telemetry_def)
  have d: "length (filter log_deleted (zip ?cs (fst (run ?cs create_tables)))) = 1"
    by (simp add: create_tables_def sample_telemetry_def add_flight_log_def
        delete_flight_log_def sqlite_int64_def Let_def)
  have a: "length (filter is_add_flight_log ?cs) = 2" by simp
  from flight_log_count[of ?cs] s have "int (length (get_all_flight_logs (snd (run ?cs create_tables)))) =
        int (length (filter is_add_flight_log ?cs))
          - int (length (filter log_deleted (zip ?cs (fst (run ?cs create_tables)))))"
    by blast
  then have "length (get_all_flight_logs (snd (run ?cs create_tables))) = 1"
    unfolding a d by simp
  then show ?thesis using s a d by simp
qed

text \<open>
  C8 (unserializable telemetry). When \<open>add_flight_log\<close> is given telemetry that cannot be
  serialized (a value of a type the JSON encoder does not support occurs in it), the call
  fails with the exception the encoder raises, which reaches the caller as the outcome of
  the call, and the database is left exactly as it was: no row is inserted.
\<close>

theorem add_flight_log_unserializable:
  assumes "has_object telemetry_data"
  shows "add_flight_log timestamp telemetry_data db = (Inl TypeError, db)"
  using dumps_has_object[OF assms] by (simp add: add_flight_log_def)

theorem add_flight_log_unserializable_witness:
  "has_object (PDict [(''Roll'', PList [PFloat 1.0, PObject])]) \<and>
   add_flight_log ''2024-01-01T00:00:00'' (PDict [(''Roll'', PList [PFloat 1.0, PObject])])
     create_tables = (Inl TypeError, create_tables)"
  using add_flight_log_unserializable
    [of "PDict [(''Roll'', PList [PFloat 1.0, PObject])]" "''2024-01-01T00:00:00''"
       create_tables]
  by simp

text \<open>
  C9 (ids). In any sequence of calls on a database file, the ids that the \<open>add_flight_log\<close>
  calls return are strictly increasing in call order, and so are the ids the
  \<open>add_detection\<close> calls return: no id is handed out twice, whatever is deleted in between.
  Each is larger than the id of every row the table held before the sequence. The first
  \<open>add_flight_log\<close> on a freshly created database returns id 1. The id an add returns is
  assigned by the insert: it is the id of the row the call appends to the table, and no row
  of the table had it before.
\<close>

theorem ids_strictly_increasing:
  assumes "wf_db db"
  shows
    "sorted_wrt (<) (flight_log_ids (zip cs (fst (run cs db)))) \<and>
     sorted_wrt (<) (detection_ids (zip cs (fst (run cs db)))) \<and>
     (\<forall>i \<in> set (flight_log_ids (zip cs (fst (run cs db)))).
        \<forall>r \<in> set (flight_logs db). fr_id r < i) \<and>
     (\<forall>i \<in> set (detection_ids (zip cs (fst (run cs db)))).
        \<forall>r \<in> set (detections db). dr_id r < i) \<and>
     (\<not> has_object telemetry_data \<longrightarrow>
        fst (add_flight_log timestamp telemetry_data create_tables) = Inr 1) \<and>
     (\<forall>i db'. add_flight_log timestamp telemetry_data db = (Inr i, db') \<longrightarrow>
        i \<notin> fr_id ` set (flight_logs db) \<and>
        map fr_id (flight_logs db') = map fr_id (flight_logs db) @ [i]) \<and>
     (\<forall>i db'. add_detection timestamp category latitude longitude picture bhp worker change db
                 = (i, db') \<longrightarrow>
        i \<notin> dr_id ` set (detections db) \<and>
        map dr_id (detections db') = map dr_id (detections db) @ [i])"
proof -
  have ff: "flight_logs_seq db + 1 \<notin> fr_id ` set (flight_logs db)"
    and fd: "detections_seq db + 1 \<notin> dr_id ` set (detections db)"
    using assms wf_table_fresh[of "map fr_id (flight_logs db)" "flight_logs_seq db"]
      wf_table_fresh[of "map dr_id (detections db)" "detections_seq db"]
    by (simp_all add: wf_db_def)
  have insf: "\<forall>i db'. add_flight_log timestamp telemetry_data db = (Inr i, db') \<longrightarrow>
        i \<notin> fr_id ` set (flight_logs db) \<and>
        map fr_id (flight_logs db') = map fr_id (flight_logs db) @ [i]"
  proof (cases "dumps telemetry_data")
    case (Inl e)
    then show ?thesis by (simp add: add_flight_log_Inl)
  next
    case (Inr j)
    then show ?thesis using ff by (auto simp: add_flight_log_Inr)
  qed
  have insd: "\<forall>i db'. add_detection timestamp category latitude longitude picture bhp worker
                 change db = (i, db') \<longrightarrow>
        i \<notin> dr_id ` set (detections db) \<and>
        map dr_id (detections db') = map dr_id (detections db) @ [i]"
    using fd by (auto simp: add_detection_eq)
  have bf: "\<forall>r \<in> set (flight_logs db). fr_id r \<le> flight_logs_seq db"
    and bd: "\<forall>r \<in> set (detections db). dr_id r \<le> detections_seq db"
    using assms by (auto simp: wf_db_def wf_table_def list_all_iff)
  have first: "\<not> has_object telemetry_data \<longrightarrow>
        fst (add_flight_log timestamp telemetry_data create_tables) = Inr 1"
  proof
    assume "\<not> has_object telemetry_data"
    then obtain j where "dumps telemetry_data = Inr j" using not_has_object_dumps by blast
    then show "fst (add_flight_log timestamp telemetry_data create_tables) = Inr 1"
      by (simp add: add_flight_log_Inr create_tables_def)
  qed
  have "\<forall>i \<in> set (flight_log_ids (zip cs (fst (run cs db)))).
        \<forall>r \<in> set (flight_logs db). fr_id r < i"
    using run_flight_log_ids[of cs db] bf by fastforce
  moreover have "\<forall>i \<in> set (detection_ids (zip cs (fst (run cs db)))).
        \<forall>r \<in> set (detections db). dr_id r < i"
    using run_detection_ids[of cs db] bd by fastforce
  ultimately show ?thesis
    using run_flight_log_ids[of cs db] run_detection_ids[of cs db] first insf insd by blast
qed

theorem ids_strictly_increasing_witness:
  "wf_db sample_db \<and> \<not> has_object sample_telemetry \<and>
   flight_log_ids
     (zip [AddFlightLog ''2024-01-02T00:00:00'' sample_telemetry,
           AddDetection ''2024-01-02T00:00:00'' ''Worker'' 52.1 21.1 None True False False,
           DeleteFlightLog 3,
           AddFlightLog ''2024-01-03T00:00:00'' sample_telemetry]
        (fst (run [AddFlightLog ''2024-01-02T00:00:00'' sample_telemetry,
                   AddDetection ''2024-01-02T00:00:00'' ''Worker'' 52.1 21.1 None True False False,
                   DeleteFlightLog 3,
                   AddFlightLog ''2024-01-03T00:00:00'' sample_telemetry] sample_db))) = [3, 4] \<and>
   sorted_wrt (<) [3, 4 :: int] \<and>
   fst (add_flight_log ''2024-01-01T00:00:00'' sample_telemetry create_tables) = Inr 1"
proof -
  let ?cs = "[AddFlightLog ''2024-01-02T00:00:00'' sample_telemetry,
           AddDetection ''2024-01-02T00:00:00'' ''Worker'' 52.1 21.1 None True False False,
           DeleteFlightLog 3,
           AddFlightLog ''2024-01-03T00:00:00'' sample_telemetry]"
  have h: "\<not> has_object sample_telemetry" by (simp add: sample_telemetry_def)
  have ids: "flight_log_ids (zip ?cs (fst (run ?cs sample_db))) = [3, 4]"
    by (simp add: sample_db_def sample_telemetry_def add_flight_log_def add_detection_def
        delete_flight_log_def sqlite_int64_def Let_def)
  from ids_strictly_increasing[OF wf_sample_db, of ?cs sample_telemetry "''2024-01-01T00:00:00''"] h
  have "sorted_wrt (<) (flight_log_ids (zip ?cs (fst (run ?cs sample_db))))"
    and "fst (add_flight_log ''2024-01-01T00:00:00'' sample_telemetry create_tables) = Inr 1"
    by blast+
  then show ?thesis using wf_sample_db h ids by simp
qed

text \<open>
  C10 (None means "leave as it is"). For a stored detection with a picture path,
  \<open>update_detection\<close> with \<open>picture\<close> passed as None (the default of an omitted argument)
  keeps the path; and whatever is passed for \<open>picture\<close>, the record read back afterwards has
  a picture: a path, once set, cannot be cleared through \<open>update_detection\<close>. The same holds
  of every parameter: the record read back is the one read before with the arguments that
  are not None put in, so a call with every argument None leaves the record as it was.
\<close>

theorem update_detection_None_keeps_picture:
  assumes "get_detection detection_id db = Inr (Some current)"
    and "det_picture current = Some p"
  shows
    "(\<exists>d. get_detection detection_id
            (snd (update_detection detection_id timestamp category latitude longitude None bhp
                    worker change db)) = Inr (Some d) \<and>
          det_picture d = Some p) \<and>
     (\<exists>d. get_detection detection_id
            (snd (update_detection detection_id timestamp category latitude longitude picture
                    bhp worker change db)) = Inr (Some d) \<and>
          det_picture d \<noteq> None) \<and>
     get_detection detection_id
       (snd (update_detection detection_id timestamp category latitude longitude picture
               bhp worker change db)) =
       Inr (Some (merged current timestamp category latitude longitude picture bhp worker
                    change)) \<and>
     get_detection detection_id
       (snd (update_detection detection_id None None None None None None None None db)) =
       Inr (Some current)"
proof -
  have all_None: "merged current None None None None None None None None = current"
    by (simp add: merged_def)
  show ?thesis
    using get_detection_updated[OF assms(1)] assms(2) all_None
    by (auto simp: merged_def split: option.splits)
qed

theorem update_detection_None_keeps_picture_witness:
  "get_detection 1 sample_db =
     Inr (Some \<lparr>det_id = 1, det_timestamp = ''2024-01-01T00:00:00'',
                det_category = ''Worker'', det_latitude = 52.2297, det_longitude = 21.0122,
                det_picture = Some ''/path/to/worker.jpg'', det_bhp = True,
                det_worker = True, det_change = False\<rparr>) \<and>
   (\<exists>d. get_detection 1
          (snd (update_detection 1 None None None None None None None None sample_db)) =
          Inr (Some d) \<and>
        det_picture d = Some ''/path/to/worker.jpg'')"
proof -
  let ?cur = "\<lparr>det_id = 1, det_timestamp = ''2024-01-01T00:00:00'', det_category = ''Worker'',
           det_latitude = 52.2297, det_longitude = 21.0122,
           det_picture = Some ''/path/to/worker.jpg'', det_bhp = True, det_worker = True,
           det_change = False\<rparr>"
  have a: "get_detection 1 sample_db = Inr (Some ?cur)"
    by (simp add: get_detection_def sqlite_int64_def sample_db_def detection_of_row_def
        py_bool_def)
  have b: "det_picture ?cur = Some ''/path/to/worker.jpg''" by simp
  from update_detection_None_keeps_picture
         [OF a b, of None None None None None None None None] a
  show ?thesis by blast
qed

end
